theory Spec2Isabelle
  imports Main "HOL-Library.Sublist"
begin

section \<open>Python string operations used by the service\<close>

text \<open>
  Python strings are modelled as \<^typ>\<open>string\<close>, one \<^typ>\<open>char\<close> per character, so
  \<^const>\<open>length\<close> is Python's \<open>len\<close>. A \<^typ>\<open>char\<close> has 256 values; they are read as the
  code points 0 to 255. The separators passed to \<open>split\<close>, \<open>replace\<close> and \<open>join\<close> in the
  source are all non-empty literals, so the \<open>ValueError\<close> of an empty separator cannot
  occur; the functions below return their input unsplit in that case.
\<close>

definition NL2 :: string where
  \<comment> \<open>the paragraph separator \<open>'\n\n'\<close>\<close>
  "NL2 = [CHR 0x0A, CHR 0x0A]"

definition isspace :: "char \<Rightarrow> bool" where
  \<comment> \<open>\<open>str.isspace\<close> on the code points below 256\<close>
  "isspace c =
     (let n = (of_char c :: nat)
      in (9 \<le> n \<and> n \<le> 13) \<or> (28 \<le> n \<and> n \<le> 32) \<or> n = 133 \<or> n = 160)"

definition str_strip :: "string \<Rightarrow> string" where
  \<comment> \<open>\<open>s.strip()\<close>\<close>
  "str_strip s = rev (dropWhile isspace (rev (dropWhile isspace s)))"

fun str_join :: "string \<Rightarrow> string list \<Rightarrow> string" where
  \<comment> \<open>\<open>sep.join(xs)\<close>\<close>
  "str_join sep [] = []"
| "str_join sep [x] = x"
| "str_join sep (x # y # ys) = x @ sep @ str_join sep (y # ys)"

fun str_split :: "string \<Rightarrow> string \<Rightarrow> string list" where
  \<comment> \<open>\<open>s.split(sep)\<close>: leftmost, non-overlapping occurrences of \<open>sep\<close>\<close>
  "str_split sep [] = [[]]"
| "str_split sep (c # cs) =
     (if sep \<noteq> [] \<and> prefix sep (c # cs)
      then [] # str_split sep (drop (length sep - 1) cs)
      else (case str_split sep cs of
              [] \<Rightarrow> [[c]]
            | p # ps \<Rightarrow> (c # p) # ps))"

fun str_replace :: "string \<Rightarrow> string \<Rightarrow> string \<Rightarrow> string" where
  \<comment> \<open>\<open>s.replace(old, new)\<close>: leftmost, non-overlapping occurrences of \<open>old\<close>\<close>
  "str_replace old new [] = []"
| "str_replace old new (c # cs) =
     (if old \<noteq> [] \<and> prefix old (c # cs)
      then new @ str_replace old new (drop (length old - 1) cs)
      else c # str_replace old new cs)"

fun str_contains :: "string \<Rightarrow> string \<Rightarrow> bool" where
  \<comment> \<open>\<open>sub in s\<close>\<close>
  "str_contains sub [] = (sub = [])"
| "str_contains sub (c # cs) = (prefix sub (c # cs) \<or> str_contains sub cs)"

section \<open>The chunker of \<open>hablai_core.py\<close>\<close>

text \<open>
  Both \<open>translate_text\<close> and \<open>text_to_speech\<close> keep three local variables while they scan
  the segments of the text: the list \<open>chunks\<close> emitted so far, the list \<open>current_chunk\<close>
  of segments collected for the next chunk, and the number \<open>current_length\<close>. The
  operation that turns \<open>current_chunk\<close> into an element of \<open>chunks\<close> is \<open>' '.join\<close>,
  \<open>'\n\n'.join\<close> or \<open>'. '.join(...) + '.'\<close>, depending on the place in the source; it is a
  parameter here, so that the same definitions give the emitted strings and, with a
  tagging function in its place, the groups of segments those strings were built from.
\<close>

record 'c packer =
  chunks :: "'c list"
  current_chunk :: "string list"
  current_length :: nat

definition MAX_CHUNK_SIZE :: nat where
  "MAX_CHUNK_SIZE = 4500"

definition MAX_TTS_SIZE :: nat where
  "MAX_TTS_SIZE = 4999"

definition packer_init :: "'c packer" where
  "packer_init = \<lparr>chunks = [], current_chunk = [], current_length = 0\<rparr>"

definition pack_segment :: "nat \<Rightarrow> (string list \<Rightarrow> 'c) \<Rightarrow> 'c packer \<Rightarrow> string \<Rightarrow> 'c packer" where
  \<comment> \<open>the \<open>if current_length + len(segment) + 2 > MAX: ... else: ...\<close> block\<close>
  "pack_segment bound emit st seg =
     (if current_length st + length seg + 2 > bound
      then \<lparr>chunks = (if current_chunk st \<noteq> [] then chunks st @ [emit (current_chunk st)]
                       else chunks st),
            current_chunk = [seg],
            current_length = length seg\<rparr>
      else \<lparr>chunks = chunks st,
            current_chunk = current_chunk st @ [seg],
            current_length = current_length st + length seg + 2\<rparr>)"

definition pack_flush :: "(string list \<Rightarrow> 'c) \<Rightarrow> 'c packer \<Rightarrow> 'c list" where
  \<comment> \<open>\<open>if current_chunk: chunks.append(...)\<close> after the loop\<close>
  "pack_flush emit st =
     (if current_chunk st \<noteq> [] then chunks st @ [emit (current_chunk st)] else chunks st)"

definition pack_sentence :: "nat \<Rightarrow> (string list \<Rightarrow> 'c) \<Rightarrow> 'c packer \<Rightarrow> string \<Rightarrow> 'c packer" where
  \<comment> \<open>body of the loops over \<open>sentences\<close>: strip, skip when empty, else pack\<close>
  "pack_sentence bound emit st sentence0 =
     (let sentence = str_strip sentence0
      in if sentence = [] then st else pack_segment bound emit st sentence)"

definition pack_paragraph :: "(string \<Rightarrow> string list \<Rightarrow> 'c) \<Rightarrow> 'c packer \<Rightarrow> string \<Rightarrow> 'c packer" where
  \<comment> \<open>body of \<open>for paragraph in paragraphs\<close> in \<open>translate_text\<close>\<close>
  "pack_paragraph emit st paragraph =
     (if length paragraph > MAX_CHUNK_SIZE
      then foldl (pack_sentence MAX_CHUNK_SIZE (emit '' '')) st (str_split ''. '' paragraph)
      else pack_segment MAX_CHUNK_SIZE (emit NL2) st paragraph)"

definition translate_pack :: "(string \<Rightarrow> string list \<Rightarrow> 'c) \<Rightarrow> string \<Rightarrow> 'c list" where
  \<comment> \<open>lines 69 to 107 of \<open>translate_text\<close>\<close>
  "translate_pack emit text =
     pack_flush (emit NL2) (foldl (pack_paragraph emit) packer_init (str_split NL2 text))"

definition translate_chunks :: "string \<Rightarrow> string list" where
  "translate_chunks text = translate_pack str_join text"

definition translate_groups :: "string \<Rightarrow> (string \<times> string list) list" where
  \<comment> \<open>the separator and the segments of every chunk, before they are joined\<close>
  "translate_groups text = translate_pack Pair text"

definition tts_sentences :: "string \<Rightarrow> string list" where
  \<comment> \<open>\<open>text.replace('.\n', '. ').replace('.\r', '. ').split('. ')\<close>\<close>
  "tts_sentences text =
     str_split ''. '' (str_replace [CHR ''.'', CHR 0x0D] ''. ''
                        (str_replace [CHR ''.'', CHR 0x0A] ''. '' text))"

definition tts_pack :: "(string list \<Rightarrow> 'c) \<Rightarrow> string \<Rightarrow> 'c list" where
  \<comment> \<open>lines 177 to 200 of \<open>text_to_speech\<close>\<close>
  "tts_pack emit text =
     pack_flush emit (foldl (pack_sentence MAX_TTS_SIZE emit) packer_init (tts_sentences text))"

definition tts_emit :: "string list \<Rightarrow> string" where
  \<comment> \<open>\<open>'. '.join(current_chunk) + '.'\<close>\<close>
  "tts_emit g = str_join ''. '' g @ ''.''"

definition tts_chunks :: "string \<Rightarrow> string list" where
  "tts_chunks text = tts_pack tts_emit text"

definition tts_groups :: "string \<Rightarrow> string list list" where
  "tts_groups text = tts_pack (\<lambda>g. g) text"

section \<open>\<open>LocalizationAI\<close>: translation and speech over the remote services\<close>

text \<open>
  The translation and speech services are remote black boxes. A call is modelled as a
  function of the language, of the texts the service has been sent before (its history,
  oldest first) and of the text sent now; it returns \<open>Inl e\<close> when the library call raises
  an exception whose \<open>str\<close> is \<open>e\<close>, and \<open>Inr r\<close> when it returns \<open>r\<close>. For speech, one call
  stands for \<open>gTTS(...)\<close>, \<open>save\<close> and, on the long path, \<open>AudioSegment.from_mp3\<close> of the
  saved file. Audio is a list of frames; \<open>AudioSegment.empty()\<close> is \<open>[]\<close> and \<open>+=\<close> appends.
  The world records what has been sent to either service, in order, the audio files
  written, the credit ledger and the usage log. Creating the output directory, removing
  the temporary files and exporting the combined audio are taken not to fail.
\<close>

type_synonym audio = "nat list"

type_synonym bytes = "nat list"

type_synonym ledger = "string \<Rightarrow> int"

record usage =
  usage_user_id :: string
  action_type :: string
  char_count :: nat
  target_languages :: "string list"
  credits_used :: nat
  usage_success :: bool
  error_message :: "string option"

record world =
  translate_log :: "string list"
  speech_log :: "string list"
  audio_files :: "string \<rightharpoonup> audio"
  credits :: ledger
  usage_logs :: "usage list"

record services =
  translate_api :: "string \<Rightarrow> string list \<Rightarrow> string \<Rightarrow> string + string"
  speech_api :: "string \<Rightarrow> string list \<Rightarrow> string \<Rightarrow> string + audio"
  pydub_installed :: bool
  credits_rpc :: "string \<Rightarrow> int \<Rightarrow> ledger \<Rightarrow> (string + bool option) \<times> ledger"
  process_txt :: "bytes \<Rightarrow> string + string"
  process_pdf :: "bytes \<Rightarrow> string + string"
  process_docx :: "bytes \<Rightarrow> string + string"
  process_json :: "bytes \<Rightarrow> string + string"
  process_csv :: "bytes \<Rightarrow> string + string"
  process_xlsx :: "bytes \<Rightarrow> string + string"

definition source_language :: string where
  "source_language = ''en''"

definition target_languages :: "(string \<times> string) list" where
  \<comment> \<open>\<open>LocalizationAI.target_languages\<close>\<close>
  "target_languages =
     [(''en'', ''English (US)''), (''es'', ''Spanish''), (''fr'', ''French''),
      (''de'', ''German''), (''it'', ''Italian''), (''pt'', ''Portuguese''),
      (''ja'', ''Japanese''), (''zh-CN'', ''Chinese''), (''ko'', ''Korean'')]"

fun translate_loop ::
  "(string list \<Rightarrow> string \<Rightarrow> string + string) \<Rightarrow> string list \<Rightarrow> string list \<Rightarrow> string list
     \<Rightarrow> (string + string list) \<times> string list" where
  \<comment> \<open>\<open>for i, chunk in enumerate(chunks, 1)\<close>: arguments are the chunks left, \<open>translated_chunks\<close>
      and the history of the service\<close>
  "translate_loop tr [] translated_chunks log = (Inr translated_chunks, log)"
| "translate_loop tr (chunk # rest) translated_chunks log =
     (case tr log chunk of
        Inl e \<Rightarrow> (Inl e, log @ [chunk])
      | Inr translated \<Rightarrow> translate_loop tr rest (translated_chunks @ [translated]) (log @ [chunk]))"

definition translate_text :: "services \<Rightarrow> string \<Rightarrow> string \<Rightarrow> world \<Rightarrow> string \<times> world" where
  "translate_text sv text target_lang w =
     (if length text \<le> MAX_CHUNK_SIZE then
        (if target_lang = source_language then (text, w)
         else (case translate_api sv target_lang (translate_log w) text of
                 Inl e \<Rightarrow> (''Translation error: '' @ e,
                           w\<lparr>translate_log := translate_log w @ [text]\<rparr>)
               | Inr translated \<Rightarrow> (translated,
                           w\<lparr>translate_log := translate_log w @ [text]\<rparr>)))
      else
        (let chunks = translate_chunks text
         in if target_lang = source_language then (text, w)
            else (case translate_loop (translate_api sv target_lang) chunks [] (translate_log w) of
                    (Inl e, log) \<Rightarrow> (''Translation error: '' @ e, w\<lparr>translate_log := log\<rparr>)
                  | (Inr translated_chunks, log) \<Rightarrow>
                      (str_join NL2 translated_chunks, w\<lparr>translate_log := log\<rparr>))))"

definition os_path_join :: "string \<Rightarrow> string \<Rightarrow> string" where
  \<comment> \<open>\<open>os.path.join(a, b)\<close> on POSIX\<close>
  "os_path_join a b =
     (if b \<noteq> [] \<and> hd b = CHR ''/'' then b
      else if a = [] \<or> last a = CHR ''/'' then a @ b
      else a @ ''/'' @ b)"

definition os_path_basename :: "string \<Rightarrow> string" where
  "os_path_basename p = last (str_split ''/'' p)"

fun speech_loop ::
  "(string list \<Rightarrow> string \<Rightarrow> string + audio) \<Rightarrow> string list \<Rightarrow> audio \<Rightarrow> string list
     \<Rightarrow> (string + audio) \<times> string list" where
  \<comment> \<open>\<open>for i, chunk in enumerate(chunks, 1)\<close>: arguments are the chunks left, \<open>combined\<close> and
      the history of the service\<close>
  "speech_loop sp [] combined log = (Inr combined, log)"
| "speech_loop sp (chunk # rest) combined log =
     (case sp log chunk of
        Inl e \<Rightarrow> (Inl e, log @ [chunk])
      | Inr audio_chunk \<Rightarrow> speech_loop sp rest (combined @ audio_chunk) (log @ [chunk]))"

definition speak_once :: "services \<Rightarrow> string \<Rightarrow> string \<Rightarrow> string \<Rightarrow> world \<Rightarrow> string \<times> world" where
  \<comment> \<open>\<open>tts = gTTS(text=text, lang=lang, slow=False); tts.save(filename); return filename\<close>\<close>
  "speak_once sv filename text lang w =
     (case speech_api sv lang (speech_log w) text of
        Inl e \<Rightarrow> (''TTS error: '' @ e, w\<lparr>speech_log := speech_log w @ [text]\<rparr>)
      | Inr a \<Rightarrow> (filename, w\<lparr>speech_log := speech_log w @ [text],
                               audio_files := (audio_files w)(filename \<mapsto> a)\<rparr>))"

definition text_to_speech ::
  "services \<Rightarrow> string \<Rightarrow> string \<Rightarrow> string \<Rightarrow> string \<Rightarrow> world \<Rightarrow> string \<times> world" where
  \<comment> \<open>\<open>timestamp\<close> is \<open>datetime.now().strftime("%Y%m%d_%H%M%S")\<close>\<close>
  "text_to_speech sv timestamp text lang output_dir w =
     (let filename = os_path_join output_dir (''audio_'' @ lang @ ''_'' @ timestamp @ ''.mp3'')
      in if length text \<le> MAX_TTS_SIZE then speak_once sv filename text lang w
         else if \<not> pydub_installed sv then speak_once sv filename (take MAX_TTS_SIZE text) lang w
         else (case speech_loop (speech_api sv lang) (tts_chunks text) [] (speech_log w) of
                 (Inl e, log) \<Rightarrow> (''TTS error: '' @ e, w\<lparr>speech_log := log\<rparr>)
               | (Inr combined, log) \<Rightarrow>
                   (filename, w\<lparr>speech_log := log,
                                audio_files := (audio_files w)(filename \<mapsto> combined)\<rparr>)))"

section \<open>\<open>models.py\<close> and \<open>config.py\<close>: the language tables\<close>

datatype TargetLanguage =
  ENGLISH | SPANISH | FRENCH | GERMAN | ITALIAN | PORTUGUESE | JAPANESE | CHINESE | KOREAN

fun TargetLanguage_value :: "TargetLanguage \<Rightarrow> string" where
  "TargetLanguage_value ENGLISH = ''en''"
| "TargetLanguage_value SPANISH = ''es''"
| "TargetLanguage_value FRENCH = ''fr''"
| "TargetLanguage_value GERMAN = ''de''"
| "TargetLanguage_value ITALIAN = ''it''"
| "TargetLanguage_value PORTUGUESE = ''pt''"
| "TargetLanguage_value JAPANESE = ''ja''"
| "TargetLanguage_value CHINESE = ''zh-CN''"
| "TargetLanguage_value KOREAN = ''ko''"

definition TargetLanguage_members :: "TargetLanguage list" where
  "TargetLanguage_members =
     [ENGLISH, SPANISH, FRENCH, GERMAN, ITALIAN, PORTUGUESE, JAPANESE, CHINESE, KOREAN]"

definition parse_TargetLanguage :: "string \<Rightarrow> TargetLanguage option" where
  \<comment> \<open>validation of a \<open>target_language: TargetLanguage\<close> field: the member with that value\<close>
  "parse_TargetLanguage s = find (\<lambda>l. TargetLanguage_value l = s) TargetLanguage_members"

definition Config_SOURCE_LANGUAGE :: string where
  "Config_SOURCE_LANGUAGE = ''en''"

definition Config_TARGET_LANGUAGES :: "(string \<times> string) list" where
  "Config_TARGET_LANGUAGES =
     [(''en'', ''English (US)''), (''es'', ''Spanish''), (''fr'', ''French''),
      (''de'', ''German''), (''it'', ''Italian''), (''pt'', ''Portuguese''),
      (''ja'', ''Japanese''), (''zh-CN'', ''Chinese''), (''ko'', ''Korean'')]"

definition Config_MAX_TEXT_LENGTH :: nat where
  "Config_MAX_TEXT_LENGTH = 20000"

section \<open>\<open>file_processor.py\<close>\<close>

text \<open>
  The six extractors \<open>_process_txt\<close> to \<open>_process_xlsx\<close> wrap library parsers; they are the
  fields \<^const>\<open>process_txt\<close> to \<^const>\<open>process_xlsx\<close> of the services, \<open>Inl e\<close> when the parser
  raises. The result dictionary is a datatype: a failure carries the \<open>'error'\<close> entry, a
  success the entries \<open>'text'\<close>, \<open>'filename'\<close>, \<open>'format'\<close>, \<open>'size_bytes'\<close>, \<open>'char_count'\<close>.
\<close>

datatype file_result =
  FileFailure string
| FileSuccess string string string nat nat

fun file_success :: "file_result \<Rightarrow> bool" where
  "file_success (FileFailure e) = False"
| "file_success (FileSuccess t f x n m) = True"

definition SUPPORTED_FORMATS :: "(string \<times> string) list" where
  "SUPPORTED_FORMATS =
     [(''txt'', ''text/plain''),
      (''pdf'', ''application/pdf''),
      (''docx'', ''application/vnd.openxmlformats-officedocument.wordprocessingml.document''),
      (''json'', ''application/json''),
      (''csv'', ''text/csv''),
      (''xlsx'', ''application/vnd.openxmlformats-officedocument.spreadsheetml.sheet''),
      (''xls'', ''application/vnd.ms-excel'')]"

definition MAX_FILE_SIZE :: nat where
  "MAX_FILE_SIZE = 10 * 1024 * 1024"

definition char_lower :: "char \<Rightarrow> char" where
  \<comment> \<open>\<open>str.lower\<close> on one code point below 256\<close>
  "char_lower c =
     (let n = (of_char c :: nat)
      in if (65 \<le> n \<and> n \<le> 90) \<or> (192 \<le> n \<and> n \<le> 222 \<and> n \<noteq> 215)
         then char_of (n + 32) else c)"

definition str_lower :: "string \<Rightarrow> string" where
  "str_lower s = map char_lower s"

definition get_file_extension :: "string \<Rightarrow> string" where
  \<comment> \<open>\<open>filename.split('.')[-1].lower()\<close>\<close>
  "get_file_extension filename = str_lower (last (str_split ''.'' filename))"

definition is_supported :: "string \<Rightarrow> bool" where
  "is_supported filename = (get_file_extension filename \<in> set (map fst SUPPORTED_FORMATS))"

definition extract_by_ext :: "services \<Rightarrow> string \<Rightarrow> bytes \<Rightarrow> (string + string) option" where
  \<comment> \<open>the \<open>if ext == 'txt': ... elif ...\<close> chain; \<open>None\<close> is its final \<open>else\<close>\<close>
  "extract_by_ext sv ext file_content =
     (if ext = ''txt'' then Some (process_txt sv file_content)
      else if ext = ''pdf'' then Some (process_pdf sv file_content)
      else if ext = ''docx'' then Some (process_docx sv file_content)
      else if ext = ''json'' then Some (process_json sv file_content)
      else if ext = ''csv'' then Some (process_csv sv file_content)
      else if ext \<in> set [''xlsx'', ''xls''] then Some (process_xlsx sv file_content)
      else None)"

definition FileProcessor_process_file :: "services \<Rightarrow> bytes \<Rightarrow> string \<Rightarrow> file_result" where
  "FileProcessor_process_file sv file_content filename =
     (let ext = get_file_extension filename
      in if \<not> is_supported filename then FileFailure (''Formato no soportado: '' @ ext)
         else if length file_content > MAX_FILE_SIZE
         then FileFailure (''Archivo demasiado grande. M'' @ [CHR 0xE1] @ ''ximo: 10.0 MB'')
         else (case extract_by_ext sv ext file_content of
                 None \<Rightarrow> FileFailure (''Procesador no implementado para: '' @ ext)
               | Some (Inl e) \<Rightarrow> FileFailure (''Error procesando archivo: '' @ e)
               | Some (Inr text) \<Rightarrow>
                   FileSuccess text filename ext (length file_content) (length text)))"

section \<open>\<open>auth.py\<close>: credits and the usage log\<close>

definition ledger_rpc :: "string \<Rightarrow> int \<Rightarrow> ledger \<Rightarrow> (string + bool option) \<times> ledger" where
  \<comment> \<open>Modelled from the spec: the stored procedure \<open>check_and_deduct_credits\<close> of the external
      ledger is not part of the sources. The glossary calls a credit a unit that is deducted
      per billable action and tracked in an external ledger, and the caller's docstring says:
      true if credits are available and deducted, false otherwise.\<close>
  "ledger_rpc user_id credits_needed l =
     (if credits_needed \<le> l user_id
      then (Inr (Some True), l(user_id := l user_id - credits_needed))
      else (Inr (Some False), l))"

definition check_and_deduct_credits :: "services \<Rightarrow> string \<Rightarrow> int \<Rightarrow> world \<Rightarrow> bool \<times> world" where
  \<comment> \<open>\<open>AuthService.check_and_deduct_credits\<close>: \<open>Inl e\<close> is the call raising, \<open>Inr None\<close> is
      \<open>result.data is None\<close>\<close>
  "check_and_deduct_credits sv user_id credits_needed w =
     (case credits_rpc sv user_id credits_needed (credits w) of
        (Inl e, l) \<Rightarrow> (False, w\<lparr>credits := l\<rparr>)
      | (Inr None, l) \<Rightarrow> (False, w\<lparr>credits := l\<rparr>)
      | (Inr (Some b), l) \<Rightarrow> (b, w\<lparr>credits := l\<rparr>))"

definition log_usage ::
  "string \<Rightarrow> string \<Rightarrow> nat \<Rightarrow> string list \<Rightarrow> bool \<Rightarrow> string option \<Rightarrow> world \<Rightarrow> world" where
  \<comment> \<open>\<open>AuthService.log_usage\<close>; a failing insert is swallowed by the source and not modelled\<close>
  "log_usage user_id action chars langs ok msg w =
     w\<lparr>usage_logs := usage_logs w @
          [\<lparr>usage_user_id = user_id, action_type = action, char_count = chars,
            target_languages = langs, credits_used = 1, usage_success = ok,
            error_message = msg\<rparr>]\<rparr>"

section \<open>\<open>api.py\<close>: the three billable endpoints\<close>

text \<open>
  An endpoint returns either its response model or raises \<open>HTTPException(status, detail)\<close>.
  The arguments are what FastAPI hands to the handler: the authenticated user and the
  validated request. The inserts into the tables \<open>translations\<close> and \<open>localizations\<close> are
  wrapped in a \<open>try\<close> that only prints; they do not influence the response and are left out.
\<close>

datatype 'a http = HTTPException nat string | Response 'a

record current_user =
  cu_id :: string
  cu_credits_remaining :: int

record TranslateResponse =
  tr_success :: bool
  tr_source_text :: string
  tr_source_language :: string
  tr_translated_text :: string
  tr_target_language :: string

record AudioResponse =
  \<comment> \<open>\<open>TTSResponse\<close>, and \<open>ProcessFileResponse\<close> with its two extra fields\<close>
  au_success :: bool
  au_filename :: "string option"
  au_format :: "string option"
  au_source_text :: string
  au_source_language :: string
  au_translated_text :: string
  au_target_language :: string
  au_audio_file :: string
  au_audio_url :: string
  au_char_count :: nat

fun str_nat :: "nat \<Rightarrow> string" where
  \<comment> \<open>\<open>str(n)\<close> for \<open>n \<ge> 0\<close>\<close>
  "str_nat n =
     (if n < 10 then [''0123456789'' ! n]
      else str_nat (n div 10) @ [''0123456789'' ! (n mod 10)])"

declare str_nat.simps [simp del]

definition str_int :: "int \<Rightarrow> string" where
  "str_int i = (if i < 0 then ''-'' @ str_nat (nat (- i)) else str_nat (nat i))"

definition repr_str_list :: "string list \<Rightarrow> string" where
  \<comment> \<open>\<open>str\<close> of a list of strings that hold no quote or backslash\<close>
  "repr_str_list xs = ''['' @ str_join '', '' (map (\<lambda>x. [CHR 0x27] @ x @ [CHR 0x27]) xs) @ '']''"

definition insufficient_credits :: "current_user \<Rightarrow> string \<Rightarrow> string" where
  "insufficient_credits u rest =
     ''Insufficient credits. You have '' @ str_int (cu_credits_remaining u)
       @ '' credits remaining.'' @ rest"

definition translate_endpoint ::
  "services \<Rightarrow> current_user \<Rightarrow> string \<Rightarrow> TargetLanguage \<Rightarrow> world \<Rightarrow> TranslateResponse http \<times> world" where
  \<comment> \<open>\<open>POST /translate\<close>\<close>
  "translate_endpoint sv u text target_language w =
     (case check_and_deduct_credits sv (cu_id u) 1 w of (has_credits, w1) \<Rightarrow>
      if \<not> has_credits
      then (HTTPException 402 (insufficient_credits u '' Upgrade your plan to continue.''), w1)
      else (case translate_text sv text (TargetLanguage_value target_language) w1 of
              (translated, w2) \<Rightarrow>
              if str_contains ''Error'' translated
              then (HTTPException 500 translated,
                    log_usage (cu_id u) ''translate'' (length text)
                      [TargetLanguage_value target_language] False (Some translated) w2)
              else (Response \<lparr>tr_success = True, tr_source_text = text,
                               tr_source_language = Config_SOURCE_LANGUAGE,
                               tr_translated_text = translated,
                               tr_target_language = TargetLanguage_value target_language\<rparr>,
                    log_usage (cu_id u) ''translate'' (length text)
                      [TargetLanguage_value target_language] True None w2)))"

definition speak_and_respond ::
  "services \<Rightarrow> string \<Rightarrow> current_user \<Rightarrow> string \<Rightarrow> string \<Rightarrow> string \<Rightarrow> string \<Rightarrow> string
     \<Rightarrow> (string \<Rightarrow> string \<Rightarrow> AudioResponse) \<Rightarrow> world \<Rightarrow> AudioResponse http \<times> world" where
  \<comment> \<open>the common tail of \<open>/tts\<close> and \<open>/process-file\<close>, from \<open># Generate audio\<close> on;
      \<open>label\<close> is what \<open>/process-file\<close> puts before the error text\<close>
  "speak_and_respond sv timestamp u action text translated lang label mk w =
     (case text_to_speech sv timestamp translated lang ''output_audio'' w of
        (audio_file, w3) \<Rightarrow>
        if str_contains ''Error'' audio_file
        then (HTTPException 500 (label @ audio_file),
              log_usage (cu_id u) action (length text) [lang] False (Some audio_file) w3)
        else (let audio_filename = os_path_basename audio_file;
                  audio_url = ''/audio/'' @ audio_filename
              in (Response (mk audio_filename audio_url),
                  log_usage (cu_id u) action (length text) [lang] True None w3)))"

definition tts_endpoint ::
  "services \<Rightarrow> string \<Rightarrow> current_user \<Rightarrow> string \<Rightarrow> TargetLanguage \<Rightarrow> world \<Rightarrow> AudioResponse http \<times> world" where
  \<comment> \<open>\<open>POST /tts\<close>\<close>
  "tts_endpoint sv timestamp u text target_language w =
     (let lang = TargetLanguage_value target_language
      in case check_and_deduct_credits sv (cu_id u) 1 w of (has_credits, w1) \<Rightarrow>
         if \<not> has_credits then (HTTPException 402 (insufficient_credits u []), w1)
         else (case translate_text sv text lang w1 of
                 (translated, w2) \<Rightarrow>
                 if str_contains ''Error'' translated
                 then (HTTPException 500 translated,
                       log_usage (cu_id u) ''tts'' (length text) [lang] False (Some translated) w2)
                 else speak_and_respond sv timestamp u ''tts'' text translated lang []
                        (\<lambda>audio_filename audio_url.
                           \<lparr>au_success = True, au_filename = None, au_format = None,
                            au_source_text = text, au_source_language = Config_SOURCE_LANGUAGE,
                            au_translated_text = translated, au_target_language = lang,
                            au_audio_file = audio_filename, au_audio_url = audio_url,
                            au_char_count = length text\<rparr>) w2))"

definition preview :: "string \<Rightarrow> string" where
  \<comment> \<open>\<open>text[:500] + "..." if len(text) > 500 else text\<close>\<close>
  "preview text = (if length text > 500 then take 500 text @ ''...'' else text)"

definition process_file_endpoint ::
  "services \<Rightarrow> string \<Rightarrow> current_user \<Rightarrow> bytes \<Rightarrow> string \<Rightarrow> string \<Rightarrow> world
     \<Rightarrow> AudioResponse http \<times> world" where
  \<comment> \<open>\<open>POST /process-file\<close>; \<open>content\<close> is \<open>await file.read()\<close>\<close>
  "process_file_endpoint sv timestamp u content filename target_language w =
     (if target_language \<notin> set (map fst Config_TARGET_LANGUAGES)
      then (HTTPException 400
              (''Language '' @ [CHR 0x27] @ target_language @ [CHR 0x27]
                 @ '' not supported. Supported: ''
                 @ repr_str_list (map fst Config_TARGET_LANGUAGES)), w)
      else (case check_and_deduct_credits sv (cu_id u) 1 w of (has_credits, w1) \<Rightarrow>
        if \<not> has_credits then (HTTPException 402 (insufficient_credits u []), w1)
        else (case FileProcessor_process_file sv content filename of
           FileFailure err \<Rightarrow>
             (HTTPException 400 err,
              log_usage (cu_id u) ''process_file'' 0 [target_language] False (Some err) w1)
         | FileSuccess text fname fmt size_bytes chars \<Rightarrow>
             if length text > Config_MAX_TEXT_LENGTH
             then (HTTPException 400
                     (''Text too long. Maximum: '' @ str_nat Config_MAX_TEXT_LENGTH
                        @ '' characters. Found: '' @ str_nat (length text)), w1)
             else if length text < 1 then (HTTPException 400 ''No text found in file'', w1)
             else (case translate_text sv text target_language w1 of
                     (translated, w2) \<Rightarrow>
                     if str_contains ''Error'' translated
                     then (HTTPException 500 (''Translation error: '' @ translated),
                           log_usage (cu_id u) ''process_file'' (length text) [target_language]
                             False (Some translated) w2)
                     else speak_and_respond sv timestamp u ''process_file'' text translated
                            target_language ''TTS error: ''
                            (\<lambda>audio_filename audio_url.
                               \<lparr>au_success = True, au_filename = Some filename,
                                au_format = Some fmt, au_source_text = preview text,
                                au_source_language = Config_SOURCE_LANGUAGE,
                                au_translated_text = preview translated,
                                au_target_language = target_language,
                                au_audio_file = audio_filename, au_audio_url = audio_url,
                                au_char_count = length text\<rparr>) w2))))"

definition validated ::
  "string \<Rightarrow> string \<Rightarrow> (string \<Rightarrow> TargetLanguage \<Rightarrow> world \<Rightarrow> 'a http \<times> world) \<Rightarrow> world
     \<Rightarrow> 'a http \<times> world" where
  \<comment> \<open>validation of a \<open>TranslateRequest\<close> or \<open>TTSRequest\<close> body before the handler runs:
      \<open>text: str = Field(..., min_length=1, max_length=20000)\<close> and
      \<open>target_language: TargetLanguage\<close>; a body that fails is answered with status 422\<close>
  "validated text target_language handler w =
     (case parse_TargetLanguage target_language of
        None \<Rightarrow> (HTTPException 422 ''Unprocessable Entity'', w)
      | Some l \<Rightarrow>
          if length text < 1 \<or> length text > 20000
          then (HTTPException 422 ''Unprocessable Entity'', w)
          else handler text l w)"

definition post_translate ::
  "services \<Rightarrow> current_user \<Rightarrow> string \<Rightarrow> string \<Rightarrow> world \<Rightarrow> TranslateResponse http \<times> world" where
  "post_translate sv u text target_language w =
     validated text target_language (translate_endpoint sv u) w"

definition post_tts ::
  "services \<Rightarrow> string \<Rightarrow> current_user \<Rightarrow> string \<Rightarrow> string \<Rightarrow> world \<Rightarrow> AudioResponse http \<times> world" where
  "post_tts sv timestamp u text target_language w =
     validated text target_language (tts_endpoint sv timestamp u) w"

section \<open>Notions used in the statements and proofs\<close>

definition translate_segments :: "string \<Rightarrow> string list" where
  \<comment> \<open>the segments the loops of \<open>translate_text\<close> hand to the packer, in order: a paragraph
      of at most 4500 characters, or the stripped non-empty sentences of a longer one\<close>
  "translate_segments text =
     concat (map (\<lambda>p. if length p > MAX_CHUNK_SIZE
                       then filter (\<lambda>x. x \<noteq> []) (map str_strip (str_split ''. '' p))
                       else [p])
                 (str_split NL2 text))"

definition tts_segments :: "string \<Rightarrow> string list" where
  \<comment> \<open>the segments the loop of \<open>text_to_speech\<close> hands to the packer, in order\<close>
  "tts_segments text = filter (\<lambda>x. x \<noteq> []) (map str_strip (tts_sentences text))"

definition accounted :: "nat \<Rightarrow> nat \<Rightarrow> string list \<Rightarrow> nat" where
  \<comment> \<open>the value of \<open>current_length\<close> while the group \<open>g\<close> is the \<open>i\<close>-th \<open>current_chunk\<close>:
      2 is added for every appended segment, also for the first segment of the first
      group when it passes the test; a group started by the other branch starts at the
      length of its first segment\<close>
  "accounted bound i g =
     sum_list (map length g) + 2 * length g
       - (if i = 0 \<and> length (hd g) + 2 \<le> bound then 0 else 2)"

definition tight :: "nat \<Rightarrow> string list list \<Rightarrow> bool" where
  "tight b gs = (\<forall>i. Suc i < length gs \<longrightarrow>
                   b < accounted b i (gs ! i) + length (hd (gs ! Suc i)) + 2)"

definition fits :: "nat \<Rightarrow> nat \<Rightarrow> string list \<Rightarrow> bool" where
  "fits b i g = (\<forall>k. 0 < k \<and> k < length g \<longrightarrow>
                   accounted b i (take k g) + length (g ! k) + 2 \<le> b)"

definition all_fit :: "nat \<Rightarrow> string list list \<Rightarrow> bool" where
  "all_fit b gs = (\<forall>i < length gs. fits b i (gs ! i))"

definition map_chunks :: "('a \<Rightarrow> 'b) \<Rightarrow> 'a packer \<Rightarrow> 'b packer" where
  "map_chunks f st =
     \<lparr>chunks = map f (chunks st), current_chunk = current_chunk st,
      current_length = current_length st\<rparr>"

definition pack_inv :: "nat \<Rightarrow> string list \<Rightarrow> string list packer \<Rightarrow> bool" where
  \<comment> \<open>what holds of the packer once it has scanned the segments \<open>segs\<close>\<close>
  "pack_inv b segs st =
     (concat (chunks st) @ current_chunk st = segs \<and>
      (\<forall>g \<in> set (chunks st). g \<noteq> []) \<and>
      (current_chunk st = [] \<longrightarrow> chunks st = [] \<and> current_length st = 0) \<and>
      (current_chunk st \<noteq> [] \<longrightarrow>
         current_length st = accounted b (length (chunks st)) (current_chunk st)) \<and>
      tight b (chunks st @ [current_chunk st]) \<and>
      all_fit b (chunks st @ [current_chunk st]))"

definition replies :: "(string list \<Rightarrow> string \<Rightarrow> string + 'a) \<Rightarrow> string list \<Rightarrow> string list \<Rightarrow> 'a list" where
  \<comment> \<open>what a service whose history is \<open>log\<close> returns when it is sent \<open>cs\<close> one by one: the
      \<open>i\<close>-th reply is given in the history that holds exactly the texts before the \<open>i\<close>-th\<close>
  "replies api log cs = map (\<lambda>i. projr (api (log @ take i cs) (cs ! i))) [0..<length cs]"

definition demo_translate :: "string \<Rightarrow> string list \<Rightarrow> string \<Rightarrow> string + string" where
  "demo_translate lang log text = Inr (lang @ '':'' @ text)"

definition same_translate :: "string \<Rightarrow> string list \<Rightarrow> string \<Rightarrow> string + string" where
  "same_translate lang log text = Inr text"

definition failing_translate :: "string \<Rightarrow> string \<Rightarrow> string list \<Rightarrow> string \<Rightarrow> string + string" where
  "failing_translate msg lang log text = Inl msg"

definition demo_speech :: "string \<Rightarrow> string list \<Rightarrow> string \<Rightarrow> string + audio" where
  "demo_speech lang log text = Inr [length text]"

definition demo_extract :: "bytes \<Rightarrow> string + string" where
  "demo_extract content = Inr ''sheet''"

definition demo_services :: services where
  "demo_services =
     \<lparr>translate_api = demo_translate, speech_api = demo_speech, pydub_installed = True,
      credits_rpc = ledger_rpc, process_txt = demo_extract, process_pdf = demo_extract,
      process_docx = demo_extract, process_json = demo_extract, process_csv = demo_extract,
      process_xlsx = demo_extract\<rparr>"

definition demo_ledger :: ledger where
  "demo_ledger user_id = 3"

definition demo_world :: world where
  "demo_world =
     \<lparr>translate_log = [], speech_log = [], audio_files = Map.empty, credits = demo_ledger,
      usage_logs = []\<rparr>"

definition demo_user :: current_user where
  "demo_user = \<lparr>cu_id = ''u1'', cu_credits_remaining = 3\<rparr>"

definition two_sentences :: string where
  "two_sentences = replicate 3000 CHR ''a'' @ ''. '' @ replicate 3000 CHR ''b''"

definition two_paragraphs :: string where
  "two_paragraphs = replicate 3000 CHR ''a'' @ NL2 @ replicate 3000 CHR ''b''"

definition three_paragraphs :: string where
  "three_paragraphs =
     replicate 10 CHR ''a'' @ NL2 @ replicate 4488 CHR ''b'' @ NL2 @ replicate 10 CHR ''c''"

definition three_sentences :: string where
  "three_sentences =
     replicate 3000 CHR ''a'' @ ''. '' @ replicate 1000 CHR ''b'' @ ''. '' @ replicate 3000 CHR ''c''"

definition language_codes :: "string list" where
  \<comment> \<open>the nine codes, in the order of the tables\<close>
  "language_codes = [''en'', ''es'', ''fr'', ''de'', ''it'', ''pt'', ''ja'', ''zh-CN'', ''ko'']"

definition extraction_result :: "string \<Rightarrow> string \<Rightarrow> nat \<Rightarrow> string + string \<Rightarrow> file_result" where
  \<comment> \<open>what \<open>process_file\<close> returns once the extractor has raised \<open>e\<close> or returned \<open>text\<close>\<close>
  "extraction_result filename ext n r =
     (case r of
        Inl e \<Rightarrow> FileFailure (''Error procesando archivo: '' @ e)
      | Inr text \<Rightarrow> FileSuccess text filename ext n (length text))"

definition second_call_fails :: "'a \<Rightarrow> string \<Rightarrow> string \<Rightarrow> string list \<Rightarrow> string \<Rightarrow> string + 'a" where
  \<comment> \<open>a service that answers its first request and raises on every later one\<close>
  "second_call_fails reply msg lang log text = (if log = [] then Inr reply else Inl msg)"

definition failing_speech :: "string \<Rightarrow> string \<Rightarrow> string list \<Rightarrow> string \<Rightarrow> string + audio" where
  "failing_speech msg lang log text = Inl msg"

definition empty_ledger :: ledger where
  "empty_ledger user_id = 0"

definition later_paragraphs :: string where
  "later_paragraphs =
     replicate 4495 CHR ''x'' @ NL2 @ replicate 10 CHR ''a'' @ NL2 @ replicate 4488 CHR ''b''"

section \<open>Facts about the string operations\<close>

lemma str_split_nonempty: "str_split sep s \<noteq> []"
  by (induction sep s rule: str_split.induct) (auto split: list.splits)

lemma str_join_Cons: "xs \<noteq> [] \<Longrightarrow> str_join sep (x # xs) = x @ sep @ str_join sep xs"
  by (cases xs) auto

lemma str_split_sep_append: "sep \<noteq> [] \<Longrightarrow> str_split sep (sep @ r) = [] # str_split sep r"
  by (cases sep) auto

lemma str_split_no_prefix:
  "\<not> prefix sep (c # cs) \<Longrightarrow>
     str_split sep (c # cs) = (c # hd (str_split sep cs)) # tl (str_split sep cs)"
  using str_split_nonempty [of sep cs] by (cases "str_split sep cs") auto

text \<open>Joining what \<open>split\<close> returns with the same separator gives the string back.\<close>

lemma str_join_split: "sep \<noteq> [] \<Longrightarrow> str_join sep (str_split sep s) = s"
proof (induction sep s rule: str_split.induct)
  case (1 sep)
  then show ?case by simp
next
  case (2 sep c cs)
  show ?case
  proof (cases "prefix sep (c # cs)")
    case True
    then obtain r where r: "c # cs = sep @ r" by (auto simp: prefix_def)
    with 2 have d: "drop (length sep - 1) cs = r" by (cases sep) auto
    have "str_join sep (str_split sep (sep @ r)) = sep @ str_join sep (str_split sep r)"
      using 2(3) by (simp add: str_split_sep_append str_join_Cons str_split_nonempty)
    also have "str_join sep (str_split sep r) = r"
      using 2(1) True 2(3) d by simp
    finally show ?thesis using r by simp
  next
    case False
    obtain p ps where ps: "str_split sep cs = p # ps"
      using str_split_nonempty [of sep cs] by (cases "str_split sep cs") auto
    have "str_join sep ((c # p) # ps) = c # str_join sep (p # ps)"
      by (cases ps) auto
    with 2(2) [OF _] False 2(3) ps show ?thesis by simp
  qed
qed

lemma str_join_append:
  "xs \<noteq> [] \<Longrightarrow> ys \<noteq> [] \<Longrightarrow> str_join sep (xs @ ys) = str_join sep xs @ sep @ str_join sep ys"
proof (induction xs)
  case Nil
  then show ?case by simp
next
  case (Cons x xs)
  then show ?case by (cases "xs = []") (simp_all add: str_join_Cons)
qed

lemma str_join_concat:
  "\<forall>g \<in> set gs. g \<noteq> [] \<Longrightarrow> str_join sep (map (str_join sep) gs) = str_join sep (concat gs)"
proof (induction gs)
  case Nil
  then show ?case by simp
next
  case (Cons g gs)
  show ?case
  proof (cases "gs = []")
    case True
    then show ?thesis by simp
  next
    case False
    with Cons.prems have c: "concat gs \<noteq> []" by (cases gs) auto
    from Cons have ih: "str_join sep (map (str_join sep) gs) = str_join sep (concat gs)" by simp
    from Cons.prems have g: "g \<noteq> []" by simp
    from False ih g c show ?thesis
      by (simp add: str_join_Cons str_join_append)
  qed
qed

text \<open>A run of one character that does not start the separator is never cut.\<close>

lemma str_split_replicate:
  assumes "sep \<noteq> []" "c \<noteq> hd sep"
  shows "str_split sep (replicate n c @ s)
           = (replicate n c @ hd (str_split sep s)) # tl (str_split sep s)"
proof (induction n)
  case 0
  show ?case using str_split_nonempty [of sep s] by simp
next
  case (Suc n)
  have "\<not> prefix sep (c # replicate n c @ s)"
    using assms by (cases sep) auto
  then show ?case using Suc
    by (simp add: str_split_no_prefix del: str_split.simps)
qed

lemma str_split_replicate_only:
  assumes "sep \<noteq> []" "c \<noteq> hd sep"
  shows "str_split sep (replicate n c) = [replicate n c]"
  using str_split_replicate [OF assms, of n "[]"] by simp

lemma str_replace_replicate:
  assumes "old \<noteq> []" "c \<noteq> hd old"
  shows "str_replace old new (replicate n c @ s) = replicate n c @ str_replace old new s"
proof (induction n)
  case 0
  show ?case by simp
next
  case (Suc n)
  have "\<not> prefix old (c # replicate n c @ s)"
    using assms by (cases old) auto
  then show ?case using Suc by simp
qed

lemma str_replace_replicate_only:
  assumes "old \<noteq> []" "c \<noteq> hd old"
  shows "str_replace old new (replicate n c) = replicate n c"
  using str_replace_replicate [OF assms, of new n "[]"] by simp

lemma str_strip_replicate: "\<not> isspace c \<Longrightarrow> str_strip (replicate n c) = replicate n c"
  by (simp add: str_strip_def)

section \<open>Facts about the chunker\<close>

subsection \<open>The emitted strings are the emitted groups, joined\<close>

lemma pack_segment_map:
  "pack_segment b (\<lambda>g. f (e g)) (map_chunks f st) seg = map_chunks f (pack_segment b e st seg)"
  by (simp add: pack_segment_def map_chunks_def)

lemma foldl_pack_segment_map:
  "foldl (pack_segment b (\<lambda>g. f (e g))) (map_chunks f st) segs
     = map_chunks f (foldl (pack_segment b e) st segs)"
  by (induction segs arbitrary: st) (simp_all add: pack_segment_map)

lemma pack_sentence_map:
  "pack_sentence b (\<lambda>g. f (e g)) (map_chunks f st) s = map_chunks f (pack_sentence b e st s)"
  by (simp add: pack_sentence_def Let_def pack_segment_map)

lemma foldl_pack_sentence_map:
  "foldl (pack_sentence b (\<lambda>g. f (e g))) (map_chunks f st) ss
     = map_chunks f (foldl (pack_sentence b e) st ss)"
  by (induction ss arbitrary: st) (simp_all add: pack_sentence_map)

lemma pack_paragraph_map:
  "pack_paragraph (\<lambda>sep g. f (e sep g)) (map_chunks f st) p = map_chunks f (pack_paragraph e st p)"
  by (simp add: pack_paragraph_def pack_segment_map foldl_pack_sentence_map)

lemma foldl_pack_paragraph_map:
  "foldl (pack_paragraph (\<lambda>sep g. f (e sep g))) (map_chunks f st) ps
     = map_chunks f (foldl (pack_paragraph e) st ps)"
  by (induction ps arbitrary: st) (simp_all add: pack_paragraph_map)

lemma pack_flush_map:
  "pack_flush (\<lambda>g. f (e g)) (map_chunks f st) = map f (pack_flush e st)"
  by (simp add: pack_flush_def map_chunks_def)

lemma map_chunks_init: "map_chunks f packer_init = packer_init"
  by (simp add: map_chunks_def packer_init_def)

lemma pack_run_map:
  "pack_flush (\<lambda>g. f (e g)) (foldl (pack_segment b (\<lambda>g. f (e g))) packer_init segs)
     = map f (pack_flush e (foldl (pack_segment b e) packer_init segs))"
  using foldl_pack_segment_map [of b f e packer_init segs]
        pack_flush_map [of f e "foldl (pack_segment b e) packer_init segs"]
  by (simp add: map_chunks_init)

lemma translate_pack_map:
  "translate_pack (\<lambda>sep g. f (e sep g)) text = map f (translate_pack e text)"
  using foldl_pack_paragraph_map [of f e packer_init "str_split NL2 text"]
        pack_flush_map [of f "e NL2" "foldl (pack_paragraph e) packer_init (str_split NL2 text)"]
  by (simp add: translate_pack_def map_chunks_init)

lemma tts_pack_map: "tts_pack (\<lambda>g. f (e g)) text = map f (tts_pack e text)"
  using foldl_pack_sentence_map [of MAX_TTS_SIZE f e packer_init "tts_sentences text"]
        pack_flush_map [of f e "foldl (pack_sentence MAX_TTS_SIZE e) packer_init (tts_sentences text)"]
  by (simp add: tts_pack_def map_chunks_init)

lemma translate_chunks_groups:
  "translate_chunks text = map (\<lambda>(sep, g). str_join sep g) (translate_groups text)"
  using translate_pack_map [of "\<lambda>(sep, g). str_join sep g" Pair "text"]
  by (simp add: translate_chunks_def translate_groups_def)

lemma translate_groups_snd:
  "map snd (translate_groups text) = translate_pack (\<lambda>sep g. g) text"
  using translate_pack_map [of snd Pair "text"]
  by (simp add: translate_groups_def)

lemma tts_chunks_groups: "tts_chunks text = map tts_emit (tts_groups text)"
  using tts_pack_map [of tts_emit "\<lambda>g. g" "text"]
  by (simp add: tts_chunks_def tts_groups_def)

subsection \<open>The nested loops scan one list of segments\<close>

lemma foldl_pack_sentence_segments:
  "foldl (pack_sentence b e) st ss
     = foldl (pack_segment b e) st (filter (\<lambda>x. x \<noteq> []) (map str_strip ss))"
  by (induction ss arbitrary: st) (simp_all add: pack_sentence_def Let_def)

lemma foldl_pack_paragraph_segments:
  "foldl (pack_paragraph (\<lambda>sep. e)) st ps
     = foldl (pack_segment MAX_CHUNK_SIZE e) st
         (concat (map (\<lambda>p. if length p > MAX_CHUNK_SIZE
                           then filter (\<lambda>x. x \<noteq> []) (map str_strip (str_split ''. '' p))
                           else [p]) ps))"
  by (induction ps arbitrary: st)
     (simp_all add: pack_paragraph_def foldl_pack_sentence_segments)

lemma foldl_pack_paragraph_short:
  "\<forall>p \<in> set ps. length p \<le> MAX_CHUNK_SIZE \<Longrightarrow>
     foldl (pack_paragraph e) st ps = foldl (pack_segment MAX_CHUNK_SIZE (e NL2)) st ps"
  by (induction ps arbitrary: st) (simp_all add: pack_paragraph_def)

subsection \<open>The invariant of the packer\<close>

lemma accounted_single:
  "accounted b i [s] = (if i = 0 \<and> length s + 2 \<le> b then length s + 2 else length s)"
  by (simp add: accounted_def)

lemma accounted_snoc: "g \<noteq> [] \<Longrightarrow> accounted b i (g @ [s]) = accounted b i g + length s + 2"
  by (cases g) (auto simp: accounted_def)

lemma tight_single: "tight b [g]"
  by (simp add: tight_def)

lemma tight_snoc:
  "tight b (gs @ [g]) =
     (tight b gs \<and> (gs \<noteq> [] \<longrightarrow> b < accounted b (length gs - 1) (last gs) + length (hd g) + 2))"
proof -
  have a: "tight b (gs @ [g]) \<Longrightarrow> tight b gs"
    unfolding tight_def
  proof (intro allI impI)
    fix i assume h: "\<forall>i. Suc i < length (gs @ [g]) \<longrightarrow>
        b < accounted b i ((gs @ [g]) ! i) + length (hd ((gs @ [g]) ! Suc i)) + 2"
      and i: "Suc i < length gs"
    from h i have "b < accounted b i ((gs @ [g]) ! i) + length (hd ((gs @ [g]) ! Suc i)) + 2"
      by simp
    with i show "b < accounted b i (gs ! i) + length (hd (gs ! Suc i)) + 2"
      by (simp add: nth_append)
  qed
  have b: "tight b (gs @ [g]) \<Longrightarrow> gs \<noteq> [] \<Longrightarrow>
             b < accounted b (length gs - 1) (last gs) + length (hd g) + 2"
  proof -
    assume h: "tight b (gs @ [g])" and ne: "gs \<noteq> []"
    from ne have l: "Suc (length gs - 1) = length gs" by (cases gs) auto
    from l have "Suc (length gs - 1) < length (gs @ [g])" by simp
    with h have "b < accounted b (length gs - 1) ((gs @ [g]) ! (length gs - 1))
                         + length (hd ((gs @ [g]) ! Suc (length gs - 1))) + 2"
      unfolding tight_def by blast
    with ne l show ?thesis by (simp add: nth_append last_conv_nth)
  qed
  have c: "tight b gs \<Longrightarrow>
             (gs \<noteq> [] \<longrightarrow> b < accounted b (length gs - 1) (last gs) + length (hd g) + 2) \<Longrightarrow>
             tight b (gs @ [g])"
    unfolding tight_def
  proof (intro allI impI)
    fix i
    assume h: "\<forall>i. Suc i < length gs \<longrightarrow> b < accounted b i (gs ! i) + length (hd (gs ! Suc i)) + 2"
      and l: "gs \<noteq> [] \<longrightarrow> b < accounted b (length gs - 1) (last gs) + length (hd g) + 2"
      and i: "Suc i < length (gs @ [g])"
    show "b < accounted b i ((gs @ [g]) ! i) + length (hd ((gs @ [g]) ! Suc i)) + 2"
    proof (cases "Suc i < length gs")
      case True
      with h show ?thesis by (simp add: nth_append)
    next
      case False
      with i have e: "Suc i = length gs" by simp
      then have ne: "gs \<noteq> []" by auto
      from e have "i = length gs - 1" by simp
      with l ne e show ?thesis by (simp add: nth_append last_conv_nth)
    qed
  qed
  from a b c show ?thesis by blast
qed

lemma fits_Nil: "fits b i []"
  by (simp add: fits_def)

lemma fits_single: "fits b i [s]"
  by (simp add: fits_def)

lemma fits_snoc:
  "g \<noteq> [] \<Longrightarrow> fits b i (g @ [s]) = (fits b i g \<and> accounted b i g + length s + 2 \<le> b)"
proof -
  assume ne: "g \<noteq> []"
  have "fits b i (g @ [s]) =
          (\<forall>k. 0 < k \<and> k < Suc (length g) \<longrightarrow>
                accounted b i (take k (g @ [s])) + length ((g @ [s]) ! k) + 2 \<le> b)"
    by (simp add: fits_def)
  also have "\<dots> = ((\<forall>k. 0 < k \<and> k < length g \<longrightarrow>
                accounted b i (take k (g @ [s])) + length ((g @ [s]) ! k) + 2 \<le> b)
              \<and> accounted b i (take (length g) (g @ [s])) + length ((g @ [s]) ! length g) + 2 \<le> b)"
    using ne by (auto simp: less_Suc_eq)
  also have "\<dots> = (fits b i g \<and> accounted b i g + length s + 2 \<le> b)"
    by (simp add: fits_def nth_append)
  finally show ?thesis .
qed

lemma all_fit_single: "all_fit b [g] = fits b 0 g"
  by (simp add: all_fit_def)

lemma all_fit_snoc: "all_fit b (gs @ [g]) = (all_fit b gs \<and> fits b (length gs) g)"
  by (auto simp: all_fit_def nth_append less_Suc_eq)

lemma pack_inv_init: "pack_inv b [] packer_init"
  by (simp add: pack_inv_def packer_init_def tight_single all_fit_single fits_Nil)

lemma pack_inv_step:
  assumes inv: "pack_inv b segs st"
  shows "pack_inv b (segs @ [seg]) (pack_segment b (\<lambda>g. g) st seg)"
proof (cases "current_chunk st = []")
  case True
  with inv have e: "chunks st = []" "current_length st = 0" "segs = []"
    by (auto simp: pack_inv_def)
  show ?thesis
    using True e
    by (simp add: pack_inv_def pack_segment_def tight_single all_fit_single fits_single
        accounted_single)
next
  case False
  from inv False have len: "current_length st = accounted b (length (chunks st)) (current_chunk st)"
    and segs: "concat (chunks st) @ current_chunk st = segs"
    and ne: "\<forall>g \<in> set (chunks st). g \<noteq> []"
    and t: "tight b (chunks st @ [current_chunk st])"
    and f: "all_fit b (chunks st @ [current_chunk st])"
    by (auto simp: pack_inv_def)
  show ?thesis
  proof (cases "current_length st + length seg + 2 > b")
    case True
    have st': "pack_segment b (\<lambda>g. g) st seg =
                 \<lparr>chunks = chunks st @ [current_chunk st], current_chunk = [seg],
                  current_length = length seg\<rparr>"
      using True False by (simp add: pack_segment_def)
    have t': "tight b ((chunks st @ [current_chunk st]) @ [[seg]])"
      using t True len by (subst tight_snoc) simp
    have f': "all_fit b ((chunks st @ [current_chunk st]) @ [[seg]])"
      using f by (subst all_fit_snoc) (simp add: fits_single)
    show ?thesis
      using segs ne False t' f'
      by (simp add: st' pack_inv_def accounted_single)
  next
    case fit: False
    have st': "pack_segment b (\<lambda>g. g) st seg =
                 \<lparr>chunks = chunks st, current_chunk = current_chunk st @ [seg],
                  current_length = current_length st + length seg + 2\<rparr>"
      using fit by (simp add: pack_segment_def)
    have t': "tight b (chunks st @ [current_chunk st @ [seg]])"
      using t False by (simp add: tight_snoc)
    have f': "all_fit b (chunks st @ [current_chunk st @ [seg]])"
      using f False fit len by (simp add: all_fit_snoc fits_snoc)
    show ?thesis
      using segs ne False t' f' len
      by (simp add: st' pack_inv_def accounted_snoc)
  qed
qed

lemma pack_inv_foldl:
  "pack_inv b segs (foldl (pack_segment b (\<lambda>g. g)) packer_init segs)"
  by (induction segs rule: rev_induct) (simp_all add: pack_inv_init pack_inv_step)

lemma pack_flush_greedy:
  assumes "pack_inv b segs st"
  shows "concat (pack_flush (\<lambda>g. g) st) = segs
         \<and> (\<forall>g \<in> set (pack_flush (\<lambda>g. g) st). g \<noteq> [])
         \<and> tight b (pack_flush (\<lambda>g. g) st)
         \<and> all_fit b (pack_flush (\<lambda>g. g) st)"
  using assms by (auto simp: pack_inv_def pack_flush_def tight_def all_fit_def)

lemma translate_groups_greedy:
  "concat (map snd (translate_groups text)) = translate_segments text
   \<and> (\<forall>g \<in> set (map snd (translate_groups text)). g \<noteq> [])
   \<and> tight MAX_CHUNK_SIZE (map snd (translate_groups text))
   \<and> all_fit MAX_CHUNK_SIZE (map snd (translate_groups text))"
  unfolding translate_groups_snd translate_pack_def translate_segments_def
    foldl_pack_paragraph_segments
  by (rule pack_flush_greedy) (rule pack_inv_foldl)

lemma tts_groups_greedy:
  "concat (tts_groups text) = tts_segments text
   \<and> (\<forall>g \<in> set (tts_groups text). g \<noteq> [])
   \<and> tight MAX_TTS_SIZE (tts_groups text)
   \<and> all_fit MAX_TTS_SIZE (tts_groups text)"
  unfolding tts_groups_def tts_pack_def tts_segments_def foldl_pack_sentence_segments
  by (rule pack_flush_greedy) (rule pack_inv_foldl)

lemma translate_chunks_short_paragraphs:
  assumes "\<forall>p \<in> set (str_split NL2 text). length p \<le> MAX_CHUNK_SIZE"
  shows "str_join NL2 (translate_chunks text) = text"
proof -
  let ?ps = "str_split NL2 text"
  let ?gs = "pack_flush (\<lambda>g. g) (foldl (pack_segment MAX_CHUNK_SIZE (\<lambda>g. g)) packer_init ?ps)"
  have "translate_chunks text
          = pack_flush (str_join NL2) (foldl (pack_segment MAX_CHUNK_SIZE (str_join NL2)) packer_init ?ps)"
    using assms by (simp add: translate_chunks_def translate_pack_def foldl_pack_paragraph_short)
  also have "\<dots> = map (str_join NL2) ?gs"
    using pack_run_map [of "str_join NL2" "\<lambda>g. g" MAX_CHUNK_SIZE ?ps] by simp
  finally have c: "translate_chunks text = map (str_join NL2) ?gs" .
  have g: "concat ?gs = ?ps \<and> (\<forall>g \<in> set ?gs. g \<noteq> [])"
    using pack_flush_greedy [OF pack_inv_foldl, of MAX_CHUNK_SIZE ?ps] by simp
  have n: "NL2 \<noteq> []" by (simp add: NL2_def)
  show ?thesis using c g
    by (simp add: str_join_concat str_join_split [OF n])
qed

subsection \<open>Chunks stay within the bound when every segment does\<close>

lemma length_str_join:
  "g \<noteq> [] \<Longrightarrow> length (str_join sep g) = sum_list (map length g) + length sep * (length g - 1)"
proof (induction g)
  case Nil
  then show ?case by simp
next
  case (Cons s g)
  show ?case
  proof (cases g)
    case Nil
    then show ?thesis by simp
  next
    case (Cons t g')
    with Cons.IH show ?thesis by (simp add: str_join_Cons)
  qed
qed

lemma length_str_join_le_accounted:
  assumes "g \<noteq> []" "length sep \<le> 2"
  shows "length (str_join sep g) \<le> accounted b i g"
proof -
  from assms(1) have n: "1 \<le> length g" by (cases g) auto
  have "length sep * (length g - 1) \<le> 2 * (length g - 1)"
    using assms(2) by (rule mult_le_mono1)
  also have "\<dots> = 2 * length g - 2" by simp
  finally have "length (str_join sep g) \<le> sum_list (map length g) + (2 * length g - 2)"
    using assms(1) by (simp add: length_str_join)
  also have "\<dots> \<le> accounted b i g"
    using n by (simp add: accounted_def)
  finally show ?thesis .
qed

lemma accounted_le_bound:
  assumes "g \<noteq> []" "fits b i g" "\<forall>s \<in> set g. length s \<le> b"
  shows "accounted b i g \<le> b"
proof (cases g rule: rev_cases)
  case Nil
  with assms(1) show ?thesis by simp
next
  case (snoc g' s)
  show ?thesis
  proof (cases "g' = []")
    case True
    with snoc assms(3) show ?thesis by (simp add: accounted_single)
  next
    case False
    with snoc assms(2) show ?thesis by (simp add: fits_snoc accounted_snoc)
  qed
qed

lemma translate_groups_separator:
  assumes "(sep, g) \<in> set (translate_groups text)"
  shows "length sep \<le> 2"
proof -
  have e: "pack_paragraph (\<lambda>sep g. length sep \<le> 2) = pack_paragraph (\<lambda>sep g. True)"
    by (intro ext) (simp add: pack_paragraph_def NL2_def)
  have "map (\<lambda>(sep, g). length sep \<le> 2) (translate_groups text)
          = translate_pack (\<lambda>sep g. length sep \<le> 2) text"
    using translate_pack_map [of "\<lambda>(sep, g). length sep \<le> 2" Pair "text"]
    by (simp add: translate_groups_def)
  also have "\<dots> = translate_pack (\<lambda>sep g. True) text"
    by (simp add: translate_pack_def e NL2_def)
  also have "\<dots> = map (\<lambda>x. True) (translate_groups text)"
    using translate_pack_map [of "\<lambda>x. True" Pair "text"]
    by (simp add: translate_groups_def)
  finally have "map (\<lambda>(sep, g). length sep \<le> 2) (translate_groups text)
                  = map (\<lambda>x. True) (translate_groups text)" .
  then have "\<forall>x \<in> set (translate_groups text). (case x of (sep, g) \<Rightarrow> length sep \<le> 2)"
    by simp
  with assms show ?thesis by auto
qed

lemma translate_chunks_within_bound:
  assumes "\<forall>s \<in> set (translate_segments text). length s \<le> MAX_CHUNK_SIZE"
  shows "\<forall>c \<in> set (translate_chunks text). length c \<le> MAX_CHUNK_SIZE"
proof
  fix c assume "c \<in> set (translate_chunks text)"
  then obtain i where i: "i < length (translate_groups text)"
    and c: "c = (case translate_groups text ! i of (sep, g) \<Rightarrow> str_join sep g)"
    by (auto simp: translate_chunks_groups in_set_conv_nth)
  obtain sep g where sg: "translate_groups text ! i = (sep, g)"
    by (cases "translate_groups text ! i") auto
  with i have m: "(sep, g) \<in> set (translate_groups text)"
    by (metis nth_mem)
  note gr = translate_groups_greedy [of "text"]
  from m have gm: "g \<in> set (map snd (translate_groups text))" by force
  with gr have ne: "g \<noteq> []" by blast
  from gr have "all_fit MAX_CHUNK_SIZE (map snd (translate_groups text))" by blast
  with i have "fits MAX_CHUNK_SIZE i (map snd (translate_groups text) ! i)"
    by (simp add: all_fit_def)
  with i sg have f: "fits MAX_CHUNK_SIZE i g" by simp
  from gm have "set g \<subseteq> set (concat (map snd (translate_groups text)))" by auto
  with gr assms have b: "\<forall>s \<in> set g. length s \<le> MAX_CHUNK_SIZE" by auto
  have "length (str_join sep g) \<le> accounted MAX_CHUNK_SIZE i g"
    using ne translate_groups_separator [OF m] by (rule length_str_join_le_accounted)
  also have "\<dots> \<le> MAX_CHUNK_SIZE"
    using ne f b by (rule accounted_le_bound)
  finally show "length c \<le> MAX_CHUNK_SIZE" using c sg by simp
qed

lemma tts_chunks_within_bound:
  assumes "\<forall>s \<in> set (tts_segments text). length s \<le> MAX_TTS_SIZE"
  shows "\<forall>c \<in> set (tts_chunks text). length c \<le> MAX_TTS_SIZE + 1"
proof
  fix c assume "c \<in> set (tts_chunks text)"
  then obtain i where i: "i < length (tts_groups text)"
    and c: "c = tts_emit (tts_groups text ! i)"
    by (auto simp: tts_chunks_groups in_set_conv_nth)
  let ?g = "tts_groups text ! i"
  note gr = tts_groups_greedy [of "text"]
  from i have gm: "?g \<in> set (tts_groups text)" by simp
  with gr have ne: "?g \<noteq> []" by blast
  from gr have "all_fit MAX_TTS_SIZE (tts_groups text)" by blast
  with i have f: "fits MAX_TTS_SIZE i ?g"
    by (simp add: all_fit_def)
  from gm have "set ?g \<subseteq> set (concat (tts_groups text))" by auto
  with gr assms have b: "\<forall>s \<in> set ?g. length s \<le> MAX_TTS_SIZE" by auto
  have "length (str_join ''. '' ?g) \<le> accounted MAX_TTS_SIZE i ?g"
    using ne by (rule length_str_join_le_accounted) simp
  also have "\<dots> \<le> MAX_TTS_SIZE"
    using ne f b by (rule accounted_le_bound)
  finally show "length c \<le> MAX_TTS_SIZE + 1" using c by (simp add: tts_emit_def)
qed

subsection \<open>The chunks of some concrete texts\<close>

lemmas chunk_eval =
  translate_chunks_def translate_groups_def translate_pack_def pack_paragraph_def
  pack_sentence_def pack_segment_def pack_flush_def packer_init_def
  tts_chunks_def tts_groups_def tts_pack_def tts_sentences_def tts_emit_def
  MAX_CHUNK_SIZE_def MAX_TTS_SIZE_def NL2_def
  str_split_replicate str_split_replicate_only str_replace_replicate
  str_replace_replicate_only str_strip_replicate str_strip_def isspace_def Let_def

lemma translate_chunks_long_word:
  "translate_chunks (replicate 4501 CHR ''a'') = [replicate 4501 CHR ''a'']"
  by (simp add: chunk_eval)

lemma translate_chunks_long_sentence:
  "translate_chunks (replicate 4500 CHR ''a'' @ ''. b'') = [replicate 4500 CHR ''a'', ''b'']"
  by (simp add: chunk_eval)

lemma tts_chunks_full_sentence:
  "tts_chunks (replicate 4999 CHR ''a'' @ ''. b'') = [replicate 4999 CHR ''a'' @ ''.'', ''b.'']"
  by (simp add: chunk_eval)

lemma translate_groups_three_paragraphs:
  "translate_groups three_paragraphs =
     [(NL2, [replicate 10 CHR ''a'']), (NL2, [replicate 4488 CHR ''b'', replicate 10 CHR ''c''])]"
  by (simp add: three_paragraphs_def chunk_eval)

lemma translate_chunks_two_sentences:
  "translate_chunks two_sentences = [replicate 3000 CHR ''a'', replicate 3000 CHR ''b'']"
  by (simp add: two_sentences_def chunk_eval)

lemma tts_chunks_two_sentences:
  "tts_chunks two_sentences = [replicate 3000 CHR ''a'' @ ''.'', replicate 3000 CHR ''b'' @ ''.'']"
  by (simp add: two_sentences_def chunk_eval)

lemma tts_groups_two_sentences:
  "tts_groups two_sentences = [[replicate 3000 CHR ''a''], [replicate 3000 CHR ''b'']]"
  by (simp add: two_sentences_def chunk_eval)

lemma str_split_two_paragraphs:
  "str_split NL2 two_paragraphs = [replicate 3000 CHR ''a'', replicate 3000 CHR ''b'']"
  by (simp add: two_paragraphs_def chunk_eval)

lemma translate_chunks_two_paragraphs:
  "translate_chunks two_paragraphs = [replicate 3000 CHR ''a'', replicate 3000 CHR ''b'']"
  by (simp add: two_paragraphs_def chunk_eval)

lemma tts_groups_three_sentences:
  "tts_groups three_sentences =
     [[replicate 3000 CHR ''a'', replicate 1000 CHR ''b''], [replicate 3000 CHR ''c'']]"
  by (simp add: three_sentences_def chunk_eval)

lemma translate_chunks_three_paragraphs:
  "translate_chunks three_paragraphs =
     [replicate 10 CHR ''a'', replicate 4488 CHR ''b'' @ NL2 @ replicate 10 CHR ''c'']"
  by (simp add: translate_chunks_groups translate_groups_three_paragraphs)

lemma translate_chunks_later_paragraphs:
  "translate_chunks later_paragraphs =
     [replicate 4495 CHR ''x'', replicate 10 CHR ''a'' @ NL2 @ replicate 4488 CHR ''b'']"
  by (simp add: later_paragraphs_def chunk_eval)

section \<open>Facts about the loops over the chunks\<close>

lemma replies_Nil: "replies api log [] = []"
  by (simp add: replies_def)

lemma replies_Cons:
  "replies api log (c # cs) = projr (api log c) # replies api (log @ [c]) cs"
  by (simp add: replies_def map_upt_Suc del: upt_Suc)

lemma length_replies: "length (replies api log cs) = length cs"
  by (simp add: replies_def)

text \<open>When every call succeeds, the loop sends every chunk, in order, and keeps every reply.\<close>

lemma translate_loop_all_ok:
  assumes "\<forall>i < length cs. \<exists>t. tr (log @ take i cs) (cs ! i) = Inr t"
  shows "translate_loop tr cs acc log = (Inr (acc @ replies tr log cs), log @ cs)"
  using assms
proof (induction cs arbitrary: acc log)
  case Nil
  then show ?case by (simp add: replies_def)
next
  case (Cons c cs)
  from Cons.prems have "\<exists>t. tr (log @ take 0 (c # cs)) ((c # cs) ! 0) = Inr t" by blast
  then obtain t where t: "tr log c = Inr t" by auto
  have "\<forall>i < length cs. \<exists>t. tr ((log @ [c]) @ take i cs) (cs ! i) = Inr t"
  proof (intro allI impI)
    fix i assume "i < length cs"
    then have "Suc i < length (c # cs)" by simp
    with Cons.prems have "\<exists>t. tr (log @ take (Suc i) (c # cs)) ((c # cs) ! Suc i) = Inr t"
      by blast
    then show "\<exists>t. tr ((log @ [c]) @ take i cs) (cs ! i) = Inr t" by simp
  qed
  from Cons.IH [OF this] t show ?case
    by (simp add: replies_Cons)
qed

lemma speech_loop_all_ok:
  assumes "\<forall>i < length cs. \<exists>a. sp (log @ take i cs) (cs ! i) = Inr a"
  shows "speech_loop sp cs acc log = (Inr (acc @ concat (replies sp log cs)), log @ cs)"
  using assms
proof (induction cs arbitrary: acc log)
  case Nil
  then show ?case by (simp add: replies_def)
next
  case (Cons c cs)
  from Cons.prems have "\<exists>a. sp (log @ take 0 (c # cs)) ((c # cs) ! 0) = Inr a" by blast
  then obtain a where a: "sp log c = Inr a" by auto
  have "\<forall>i < length cs. \<exists>a. sp ((log @ [c]) @ take i cs) (cs ! i) = Inr a"
  proof (intro allI impI)
    fix i assume "i < length cs"
    then have "Suc i < length (c # cs)" by simp
    with Cons.prems have "\<exists>a. sp (log @ take (Suc i) (c # cs)) ((c # cs) ! Suc i) = Inr a"
      by blast
    then show "\<exists>a. sp ((log @ [c]) @ take i cs) (cs ! i) = Inr a" by simp
  qed
  from Cons.IH [OF this] a show ?case
    by (simp add: replies_Cons)
qed

text \<open>When the call for chunk \<open>k\<close> is the first to raise, the loop stops there.\<close>

lemma translate_loop_first_failure:
  assumes "k < length cs"
    and "\<forall>i < k. \<exists>t. tr (log @ take i cs) (cs ! i) = Inr t"
    and "tr (log @ take k cs) (cs ! k) = Inl e"
  shows "translate_loop tr cs acc log = (Inl e, log @ take (Suc k) cs)"
  using assms
proof (induction cs arbitrary: acc log k)
  case Nil
  then show ?case by simp
next
  case (Cons c cs)
  show ?case
  proof (cases k)
    case 0
    with Cons.prems show ?thesis by simp
  next
    case (Suc j)
    from Cons.prems Suc have "\<exists>t. tr (log @ take 0 (c # cs)) ((c # cs) ! 0) = Inr t" by blast
    then obtain t where t: "tr log c = Inr t" by auto
    have j: "j < length cs" using Cons.prems Suc by simp
    have ok: "\<forall>i < j. \<exists>t. tr ((log @ [c]) @ take i cs) (cs ! i) = Inr t"
    proof (intro allI impI)
      fix i assume "i < j"
      then have "Suc i < k" using Suc by simp
      with Cons.prems have "\<exists>t. tr (log @ take (Suc i) (c # cs)) ((c # cs) ! Suc i) = Inr t"
        by blast
      then show "\<exists>t. tr ((log @ [c]) @ take i cs) (cs ! i) = Inr t" by simp
    qed
    have bad: "tr ((log @ [c]) @ take j cs) (cs ! j) = Inl e"
      using Cons.prems Suc by simp
    from Cons.IH [OF j ok bad] t Suc show ?thesis by simp
  qed
qed

lemma speech_loop_first_failure:
  assumes "k < length cs"
    and "\<forall>i < k. \<exists>a. sp (log @ take i cs) (cs ! i) = Inr a"
    and "sp (log @ take k cs) (cs ! k) = Inl e"
  shows "speech_loop sp cs acc log = (Inl e, log @ take (Suc k) cs)"
  using assms
proof (induction cs arbitrary: acc log k)
  case Nil
  then show ?case by simp
next
  case (Cons c cs)
  show ?case
  proof (cases k)
    case 0
    with Cons.prems show ?thesis by simp
  next
    case (Suc j)
    from Cons.prems Suc have "\<exists>a. sp (log @ take 0 (c # cs)) ((c # cs) ! 0) = Inr a" by blast
    then obtain a where a: "sp log c = Inr a" by auto
    have j: "j < length cs" using Cons.prems Suc by simp
    have ok: "\<forall>i < j. \<exists>a. sp ((log @ [c]) @ take i cs) (cs ! i) = Inr a"
    proof (intro allI impI)
      fix i assume "i < j"
      then have "Suc i < k" using Suc by simp
      with Cons.prems have "\<exists>a. sp (log @ take (Suc i) (c # cs)) ((c # cs) ! Suc i) = Inr a"
        by blast
      then show "\<exists>a. sp ((log @ [c]) @ take i cs) (cs ! i) = Inr a" by simp
    qed
    have bad: "sp ((log @ [c]) @ take j cs) (cs ! j) = Inl e"
      using Cons.prems Suc by simp
    from Cons.IH [OF j ok bad] a Suc show ?thesis by simp
  qed
qed

text \<open>Whatever the service does, the loop sends a prefix of the chunks and nothing else.\<close>

lemma translate_loop_log:
  "\<exists>n \<le> length cs. snd (translate_loop tr cs acc log) = log @ take n cs"
proof (induction cs arbitrary: acc log)
  case Nil
  then show ?case by simp
next
  case (Cons c cs)
  show ?case
  proof (cases "tr log c")
    case (Inl e)
    then have "snd (translate_loop tr (c # cs) acc log) = log @ take 1 (c # cs)" by simp
    then show ?thesis by (intro exI [of _ 1]) simp
  next
    case (Inr t)
    from Cons.IH [of "acc @ [t]" "log @ [c]"] obtain n where
      n: "n \<le> length cs" "snd (translate_loop tr cs (acc @ [t]) (log @ [c])) = (log @ [c]) @ take n cs"
      by blast
    with Inr have "snd (translate_loop tr (c # cs) acc log) = log @ take (Suc n) (c # cs)" by simp
    with n(1) show ?thesis by (intro exI [of _ "Suc n"]) simp
  qed
qed

lemma speech_loop_log:
  "\<exists>n \<le> length cs. snd (speech_loop sp cs acc log) = log @ take n cs"
proof (induction cs arbitrary: acc log)
  case Nil
  then show ?case by simp
next
  case (Cons c cs)
  show ?case
  proof (cases "sp log c")
    case (Inl e)
    then have "snd (speech_loop sp (c # cs) acc log) = log @ take 1 (c # cs)" by simp
    then show ?thesis by (intro exI [of _ 1]) simp
  next
    case (Inr a)
    from Cons.IH [of "acc @ a" "log @ [c]"] obtain n where
      n: "n \<le> length cs" "snd (speech_loop sp cs (acc @ a) (log @ [c])) = (log @ [c]) @ take n cs"
      by blast
    with Inr have "snd (speech_loop sp (c # cs) acc log) = log @ take (Suc n) (c # cs)" by simp
    with n(1) show ?thesis by (intro exI [of _ "Suc n"]) simp
  qed
qed

section \<open>Facts about the language tables and the file processor\<close>

lemma parse_TargetLanguage_value: "parse_TargetLanguage (TargetLanguage_value l) = Some l"
  by (cases l) (simp_all add: parse_TargetLanguage_def TargetLanguage_members_def)

lemma parse_TargetLanguage_None:
  "s \<notin> set language_codes \<Longrightarrow> parse_TargetLanguage s = None"
  by (auto simp: parse_TargetLanguage_def TargetLanguage_members_def language_codes_def)

lemma get_file_extension_xls: "get_file_extension ''book.xls'' = ''xls''"
  by (simp add: get_file_extension_def str_lower_def char_lower_def)

section \<open>Facts about \<open>translate_text\<close>, \<open>text_to_speech\<close> and the endpoints\<close>

lemma translate_text_short_failure:
  assumes "length text \<le> MAX_CHUNK_SIZE" "target_lang \<noteq> source_language"
    and "translate_api sv target_lang (translate_log w) text = Inl e"
  shows "translate_text sv text target_lang w
           = (''Translation error: '' @ e, w\<lparr>translate_log := translate_log w @ [text]\<rparr>)"
  using assms by (simp add: translate_text_def)

lemma translate_text_long_failure:
  assumes "MAX_CHUNK_SIZE < length text" "target_lang \<noteq> source_language"
    and "k < length (translate_chunks text)"
    and "\<forall>i < k. \<exists>t. translate_api sv target_lang
                        (translate_log w @ take i (translate_chunks text))
                        (translate_chunks text ! i) = Inr t"
    and "translate_api sv target_lang (translate_log w @ take k (translate_chunks text))
           (translate_chunks text ! k) = Inl e"
  shows "translate_text sv text target_lang w
           = (''Translation error: '' @ e,
              w\<lparr>translate_log := translate_log w @ take (Suc k) (translate_chunks text)\<rparr>)"
  using assms(1,2) translate_loop_first_failure [OF assms(3,4,5), of "[]"]
  by (simp add: translate_text_def Let_def)

lemma text_to_speech_short_failure:
  assumes "length text \<le> MAX_TTS_SIZE"
    and "speech_api sv lang (speech_log w) text = Inl e"
  shows "text_to_speech sv timestamp text lang output_dir w
           = (''TTS error: '' @ e, w\<lparr>speech_log := speech_log w @ [text]\<rparr>)"
  using assms by (simp add: text_to_speech_def speak_once_def Let_def)

lemma text_to_speech_truncated_failure:
  assumes "MAX_TTS_SIZE < length text" "\<not> pydub_installed sv"
    and "speech_api sv lang (speech_log w) (take MAX_TTS_SIZE text) = Inl e"
  shows "text_to_speech sv timestamp text lang output_dir w
           = (''TTS error: '' @ e, w\<lparr>speech_log := speech_log w @ [take MAX_TTS_SIZE text]\<rparr>)"
  using assms by (simp add: text_to_speech_def speak_once_def Let_def)

lemma text_to_speech_long_failure:
  assumes "MAX_TTS_SIZE < length text" "pydub_installed sv"
    and "k < length (tts_chunks text)"
    and "\<forall>i < k. \<exists>a. speech_api sv lang (speech_log w @ take i (tts_chunks text))
                        (tts_chunks text ! i) = Inr a"
    and "speech_api sv lang (speech_log w @ take k (tts_chunks text)) (tts_chunks text ! k)
           = Inl e"
  shows "text_to_speech sv timestamp text lang output_dir w
           = (''TTS error: '' @ e,
              w\<lparr>speech_log := speech_log w @ take (Suc k) (tts_chunks text)\<rparr>)"
  using assms(1,2) speech_loop_first_failure [OF assms(3,4,5), of "[]"]
  by (simp add: text_to_speech_def Let_def)

lemma credits_translate_text: "credits (snd (translate_text sv text lang w)) = credits w"
  by (simp add: translate_text_def Let_def split: sum.split prod.split)

lemma credits_text_to_speech:
  "credits (snd (text_to_speech sv timestamp text lang output_dir w)) = credits w"
  by (simp add: text_to_speech_def speak_once_def Let_def split: sum.split prod.split)

lemma credits_log_usage: "credits (log_usage user_id action n langs ok msg w) = credits w"
  by (simp add: log_usage_def)

lemma credits_speak_and_respond:
  "credits (snd (speak_and_respond sv timestamp u action text translated lang label mk w))
     = credits w"
  using credits_text_to_speech [of sv timestamp translated lang "''output_audio''" w]
  by (auto simp: speak_and_respond_def Let_def credits_log_usage split: prod.split)

lemma check_and_deduct_ledger:
  assumes "credits_rpc sv = ledger_rpc"
  shows "check_and_deduct_credits sv user_id 1 w =
           (if 1 \<le> credits w user_id
            then (True, w\<lparr>credits := (credits w)(user_id := credits w user_id - 1)\<rparr>)
            else (False, w))"
  using assms by (simp add: check_and_deduct_credits_def ledger_rpc_def)

lemma translate_endpoint_classifies:
  assumes "check_and_deduct_credits sv (cu_id u) 1 w = (True, w1)"
    and "translate_text sv text (TargetLanguage_value l) w1 = (translated, w2)"
  shows "fst (translate_endpoint sv u text l w) =
           (if str_contains ''Error'' translated then HTTPException 500 translated
            else Response \<lparr>tr_success = True, tr_source_text = text,
                            tr_source_language = Config_SOURCE_LANGUAGE,
                            tr_translated_text = translated,
                            tr_target_language = TargetLanguage_value l\<rparr>)"
  using assms by (simp add: translate_endpoint_def)

lemma tts_endpoint_classifies:
  assumes "check_and_deduct_credits sv (cu_id u) 1 w = (True, w1)"
    and "translate_text sv text (TargetLanguage_value l) w1 = (translated, w2)"
    and "text_to_speech sv timestamp translated (TargetLanguage_value l) ''output_audio'' w2
           = (audio_file, w3)"
  shows "fst (tts_endpoint sv timestamp u text l w) =
           (if str_contains ''Error'' translated then HTTPException 500 translated
            else if str_contains ''Error'' audio_file then HTTPException 500 audio_file
            else Response \<lparr>au_success = True, au_filename = None, au_format = None,
                            au_source_text = text, au_source_language = Config_SOURCE_LANGUAGE,
                            au_translated_text = translated,
                            au_target_language = TargetLanguage_value l,
                            au_audio_file = os_path_basename audio_file,
                            au_audio_url = ''/audio/'' @ os_path_basename audio_file,
                            au_char_count = length text\<rparr>)"
  using assms by (simp add: tts_endpoint_def speak_and_respond_def Let_def)

lemma credits_translate_endpoint:
  assumes "credits_rpc sv = ledger_rpc" "1 \<le> credits w (cu_id u)"
  shows "credits (snd (translate_endpoint sv u text l w))
           = (credits w)(cu_id u := credits w (cu_id u) - 1)"
proof -
  let ?w1 = "w\<lparr>credits := (credits w)(cu_id u := credits w (cu_id u) - 1)\<rparr>"
  obtain translated w2 where t: "translate_text sv text (TargetLanguage_value l) ?w1 = (translated, w2)"
    by (cases "translate_text sv text (TargetLanguage_value l) ?w1") auto
  have "credits w2 = credits ?w1"
    using credits_translate_text [of sv "text" "TargetLanguage_value l" ?w1] t by simp
  then show ?thesis
    using assms t
    by (simp add: translate_endpoint_def check_and_deduct_ledger credits_log_usage)
qed

lemma credits_tts_endpoint:
  assumes "credits_rpc sv = ledger_rpc" "1 \<le> credits w (cu_id u)"
  shows "credits (snd (tts_endpoint sv timestamp u text l w))
           = (credits w)(cu_id u := credits w (cu_id u) - 1)"
proof -
  let ?w1 = "w\<lparr>credits := (credits w)(cu_id u := credits w (cu_id u) - 1)\<rparr>"
  obtain translated w2 where t: "translate_text sv text (TargetLanguage_value l) ?w1 = (translated, w2)"
    by (cases "translate_text sv text (TargetLanguage_value l) ?w1") auto
  have "credits w2 = credits ?w1"
    using credits_translate_text [of sv "text" "TargetLanguage_value l" ?w1] t by simp
  then show ?thesis
    using assms t
    by (simp add: tts_endpoint_def Let_def check_and_deduct_ledger credits_log_usage
        credits_speak_and_respond)
qed

lemma credits_process_file_endpoint:
  assumes "credits_rpc sv = ledger_rpc" "1 \<le> credits w (cu_id u)"
    and "target_language \<in> set (map fst Config_TARGET_LANGUAGES)"
  shows "credits (snd (process_file_endpoint sv timestamp u content filename target_language w))
           = (credits w)(cu_id u := credits w (cu_id u) - 1)"
proof -
  let ?w1 = "w\<lparr>credits := (credits w)(cu_id u := credits w (cu_id u) - 1)\<rparr>"
  have c: "credits (snd (case translate_text sv src target_language ?w1 of
                           (translated, w2) \<Rightarrow>
                             if str_contains ''Error'' translated
                             then (a translated, log_usage x y n z False (m translated) w2)
                             else speak_and_respond sv timestamp u y src translated
                                    target_language label (mk translated) w2))
             = credits ?w1" for src a x y n z m label mk
  proof -
    obtain translated w2 where t: "translate_text sv src target_language ?w1 = (translated, w2)"
      by (cases "translate_text sv src target_language ?w1") auto
    have "credits w2 = credits ?w1"
      using credits_translate_text [of sv src target_language ?w1] t by simp
    then show ?thesis
      using t by (simp add: credits_log_usage credits_speak_and_respond)
  qed
  show ?thesis
    using assms
    by (simp add: process_file_endpoint_def check_and_deduct_ledger credits_log_usage c
        split: file_result.split)
qed

lemma no_credits_endpoints:
  assumes "credits_rpc sv = ledger_rpc" "credits w (cu_id u) < 1"
  shows "translate_endpoint sv u text l w
           = (HTTPException 402 (insufficient_credits u '' Upgrade your plan to continue.''), w)"
    and "tts_endpoint sv timestamp u text l w = (HTTPException 402 (insufficient_credits u []), w)"
    and "target_language \<in> set (map fst Config_TARGET_LANGUAGES) \<Longrightarrow>
           process_file_endpoint sv timestamp u content filename target_language w
             = (HTTPException 402 (insufficient_credits u []), w)"
  using assms
  by (simp_all add: translate_endpoint_def tts_endpoint_def process_file_endpoint_def Let_def
      check_and_deduct_ledger)

section \<open>The packer and the file processor as a whole\<close>

text \<open>
  What the packer does, in terms of the groups of segments behind the chunks. Every chunk
  is the join of a non-empty group of consecutive segments, and the groups in their order
  make up the list of segments. Within a group, every segment after the first was appended
  because the value of \<open>current_length\<close> before it plus its length plus 2 did not exceed the
  bound. Of two consecutive groups, the value of \<open>current_length\<close> for the earlier plus the
  length of the first segment of the later plus 2 exceeds the bound. That value is
  \<^const>\<open>accounted\<close>; it is not always the length of the joined chunk.
\<close>

lemma greedy_packing:
  "translate_chunks text = map (\<lambda>(sep, g). str_join sep g) (translate_groups text)
   \<and> concat (map snd (translate_groups text)) = translate_segments text
   \<and> (\<forall>g \<in> set (map snd (translate_groups text)). g \<noteq> [])
   \<and> (\<forall>i < length (translate_groups text). \<forall>k. 0 < k \<and> k < length (snd (translate_groups text ! i)) \<longrightarrow>
         accounted MAX_CHUNK_SIZE i (take k (snd (translate_groups text ! i)))
           + length (snd (translate_groups text ! i) ! k) + 2 \<le> MAX_CHUNK_SIZE)
   \<and> (\<forall>i. Suc i < length (translate_groups text) \<longrightarrow>
         MAX_CHUNK_SIZE < accounted MAX_CHUNK_SIZE i (snd (translate_groups text ! i))
           + length (hd (snd (translate_groups text ! Suc i))) + 2)
   \<and> tts_chunks text = map tts_emit (tts_groups text)
   \<and> concat (tts_groups text) = tts_segments text
   \<and> (\<forall>g \<in> set (tts_groups text). g \<noteq> [])
   \<and> (\<forall>i < length (tts_groups text). \<forall>k. 0 < k \<and> k < length (tts_groups text ! i) \<longrightarrow>
         accounted MAX_TTS_SIZE i (take k (tts_groups text ! i))
           + length (tts_groups text ! i ! k) + 2 \<le> MAX_TTS_SIZE)
   \<and> (\<forall>i. Suc i < length (tts_groups text) \<longrightarrow>
         MAX_TTS_SIZE < accounted MAX_TTS_SIZE i (tts_groups text ! i)
           + length (hd (tts_groups text ! Suc i)) + 2)"
proof -
  note t = translate_groups_greedy [of "text"]
  note s = tts_groups_greedy [of "text"]
  have t4: "\<forall>i < length (translate_groups text). \<forall>k. 0 < k \<and> k < length (snd (translate_groups text ! i)) \<longrightarrow>
         accounted MAX_CHUNK_SIZE i (take k (snd (translate_groups text ! i)))
           + length (snd (translate_groups text ! i) ! k) + 2 \<le> MAX_CHUNK_SIZE"
    using t by (simp add: all_fit_def fits_def)
  have t5: "\<forall>i. Suc i < length (translate_groups text) \<longrightarrow>
         MAX_CHUNK_SIZE < accounted MAX_CHUNK_SIZE i (snd (translate_groups text ! i))
           + length (hd (snd (translate_groups text ! Suc i))) + 2"
    using t by (simp add: tight_def)
  have s4: "\<forall>i < length (tts_groups text). \<forall>k. 0 < k \<and> k < length (tts_groups text ! i) \<longrightarrow>
         accounted MAX_TTS_SIZE i (take k (tts_groups text ! i))
           + length (tts_groups text ! i ! k) + 2 \<le> MAX_TTS_SIZE"
    using s by (simp add: all_fit_def fits_def)
  have s5: "\<forall>i. Suc i < length (tts_groups text) \<longrightarrow>
         MAX_TTS_SIZE < accounted MAX_TTS_SIZE i (tts_groups text ! i)
           + length (hd (tts_groups text ! Suc i)) + 2"
    using s by (simp add: tight_def)
  from t s t4 t5 s4 s5 translate_chunks_groups [of "text"] tts_chunks_groups [of "text"]
  show ?thesis by blast
qed

lemma greedy_packing_example:
  "[replicate 4488 CHR ''b'', replicate 10 CHR ''c''] \<in> set (map snd (translate_groups three_paragraphs))
   \<and> accounted MAX_CHUNK_SIZE 1 [replicate 4488 CHR ''b''] + length (replicate 10 CHR ''c'') + 2
       \<le> MAX_CHUNK_SIZE
   \<and> MAX_CHUNK_SIZE < accounted MAX_CHUNK_SIZE 0 [replicate 10 CHR ''a'']
       + length (replicate 4488 CHR ''b'') + 2
   \<and> [replicate 3000 CHR ''c''] \<in> set (tts_groups three_sentences)
   \<and> accounted MAX_TTS_SIZE 0 [replicate 3000 CHR ''a''] + length (replicate 1000 CHR ''b'') + 2
       \<le> MAX_TTS_SIZE
   \<and> MAX_TTS_SIZE < accounted MAX_TTS_SIZE 0 [replicate 3000 CHR ''a'', replicate 1000 CHR ''b'']
       + length (replicate 3000 CHR ''c'') + 2"
proof -
  note p = greedy_packing [of three_paragraphs]
  note s = greedy_packing [of three_sentences]
  note p_fit = p [THEN conjunct2, THEN conjunct2, THEN conjunct2, THEN conjunct1, rule_format,
      of 1 1]
  note p_tight = p [THEN conjunct2, THEN conjunct2, THEN conjunct2, THEN conjunct2,
      THEN conjunct1, rule_format, of 0]
  note s_fit = s [THEN conjunct2, THEN conjunct2, THEN conjunct2, THEN conjunct2,
      THEN conjunct2, THEN conjunct2, THEN conjunct2, THEN conjunct2, THEN conjunct1,
      rule_format, of 0 1]
  note s_tight = s [THEN conjunct2, THEN conjunct2, THEN conjunct2, THEN conjunct2,
      THEN conjunct2, THEN conjunct2, THEN conjunct2, THEN conjunct2, THEN conjunct2,
      rule_format, of 0]
  have a: "[replicate 4488 CHR ''b'', replicate 10 CHR ''c'']
             \<in> set (map snd (translate_groups three_paragraphs))"
    by (simp add: translate_groups_three_paragraphs)
  have b: "accounted MAX_CHUNK_SIZE 1 [replicate 4488 CHR ''b''] + length (replicate 10 CHR ''c'') + 2
             \<le> MAX_CHUNK_SIZE"
    using p_fit by (simp add: translate_groups_three_paragraphs)
  have c: "MAX_CHUNK_SIZE < accounted MAX_CHUNK_SIZE 0 [replicate 10 CHR ''a'']
             + length (replicate 4488 CHR ''b'') + 2"
    using p_tight by (simp add: translate_groups_three_paragraphs)
  have d: "[replicate 3000 CHR ''c''] \<in> set (tts_groups three_sentences)"
    by (simp add: tts_groups_three_sentences)
  have e: "accounted MAX_TTS_SIZE 0 [replicate 3000 CHR ''a''] + length (replicate 1000 CHR ''b'') + 2
             \<le> MAX_TTS_SIZE"
    using s_fit by (simp add: tts_groups_three_sentences)
  have f: "MAX_TTS_SIZE < accounted MAX_TTS_SIZE 0 [replicate 3000 CHR ''a'', replicate 1000 CHR ''b'']
             + length (replicate 3000 CHR ''c'') + 2"
    using s_tight by (simp add: tts_groups_three_sentences)
  from a b c d e f show ?thesis by (intro conjI)
qed

text \<open>
  What \<open>FileProcessor.process_file\<close> returns, case by case: the extension is the lower-cased
  text after the last dot, an extension that is not a key of \<open>SUPPORTED_FORMATS\<close> gives the
  unsupported-format failure, a supported file of more than 10 MB gives a failure, and
  otherwise the result is a failure when the extractor raises and a success with the
  extracted text when it returns.
\<close>

lemma file_dispatch:
  "get_file_extension filename = str_lower (last (str_split ''.'' filename))
   \<and> map fst SUPPORTED_FORMATS = [''txt'', ''pdf'', ''docx'', ''json'', ''csv'', ''xlsx'', ''xls'']
   \<and> (get_file_extension filename \<notin> set (map fst SUPPORTED_FORMATS) \<longrightarrow>
        FileProcessor_process_file sv content filename
          = FileFailure (''Formato no soportado: '' @ get_file_extension filename))
   \<and> (get_file_extension filename \<in> set (map fst SUPPORTED_FORMATS) \<longrightarrow>
        MAX_FILE_SIZE < length content \<longrightarrow>
        FileProcessor_process_file sv content filename
          = FileFailure (''Archivo demasiado grande. M'' @ [CHR 0xE1] @ ''ximo: 10.0 MB''))
   \<and> (length content \<le> MAX_FILE_SIZE \<longrightarrow>
        (get_file_extension filename = ''txt'' \<longrightarrow>
           FileProcessor_process_file sv content filename
             = extraction_result filename ''txt'' (length content) (process_txt sv content))
      \<and> (get_file_extension filename = ''pdf'' \<longrightarrow>
           FileProcessor_process_file sv content filename
             = extraction_result filename ''pdf'' (length content) (process_pdf sv content))
      \<and> (get_file_extension filename = ''docx'' \<longrightarrow>
           FileProcessor_process_file sv content filename
             = extraction_result filename ''docx'' (length content) (process_docx sv content))
      \<and> (get_file_extension filename = ''json'' \<longrightarrow>
           FileProcessor_process_file sv content filename
             = extraction_result filename ''json'' (length content) (process_json sv content))
      \<and> (get_file_extension filename = ''csv'' \<longrightarrow>
           FileProcessor_process_file sv content filename
             = extraction_result filename ''csv'' (length content) (process_csv sv content))
      \<and> (get_file_extension filename = ''xlsx'' \<longrightarrow>
           FileProcessor_process_file sv content filename
             = extraction_result filename ''xlsx'' (length content) (process_xlsx sv content))
      \<and> (get_file_extension filename = ''xls'' \<longrightarrow>
           FileProcessor_process_file sv content filename
             = extraction_result filename ''xls'' (length content) (process_xlsx sv content)))"
proof -
  have s: "map fst SUPPORTED_FORMATS = [''txt'', ''pdf'', ''docx'', ''json'', ''csv'', ''xlsx'', ''xls'']"
    by (simp add: SUPPORTED_FORMATS_def)
  have u: "get_file_extension filename \<notin> set (map fst SUPPORTED_FORMATS) \<longrightarrow>
        FileProcessor_process_file sv content filename
          = FileFailure (''Formato no soportado: '' @ get_file_extension filename)"
    by (simp add: FileProcessor_process_file_def is_supported_def Let_def)
  have b: "get_file_extension filename \<in> set (map fst SUPPORTED_FORMATS) \<longrightarrow>
        MAX_FILE_SIZE < length content \<longrightarrow>
        FileProcessor_process_file sv content filename
          = FileFailure (''Archivo demasiado grande. M'' @ [CHR 0xE1] @ ''ximo: 10.0 MB'')"
    by (simp add: FileProcessor_process_file_def is_supported_def Let_def)
  have e: "get_file_extension filename = str_lower (last (str_split ''.'' filename))"
    by (simp add: get_file_extension_def)
  have d: "length content \<le> MAX_FILE_SIZE \<longrightarrow>
        (get_file_extension filename = ''txt'' \<longrightarrow>
           FileProcessor_process_file sv content filename
             = extraction_result filename ''txt'' (length content) (process_txt sv content))
      \<and> (get_file_extension filename = ''pdf'' \<longrightarrow>
           FileProcessor_process_file sv content filename
             = extraction_result filename ''pdf'' (length content) (process_pdf sv content))
      \<and> (get_file_extension filename = ''docx'' \<longrightarrow>
           FileProcessor_process_file sv content filename
             = extraction_result filename ''docx'' (length content) (process_docx sv content))
      \<and> (get_file_extension filename = ''json'' \<longrightarrow>
           FileProcessor_process_file sv content filename
             = extraction_result filename ''json'' (length content) (process_json sv content))
      \<and> (get_file_extension filename = ''csv'' \<longrightarrow>
           FileProcessor_process_file sv content filename
             = extraction_result filename ''csv'' (length content) (process_csv sv content))
      \<and> (get_file_extension filename = ''xlsx'' \<longrightarrow>
           FileProcessor_process_file sv content filename
             = extraction_result filename ''xlsx'' (length content) (process_xlsx sv content))
      \<and> (get_file_extension filename = ''xls'' \<longrightarrow>
           FileProcessor_process_file sv content filename
             = extraction_result filename ''xls'' (length content) (process_xlsx sv content))"
    by (intro conjI impI)
       (simp_all add: FileProcessor_process_file_def is_supported_def Let_def
          extraction_result_def extract_by_ext_def SUPPORTED_FORMATS_def split: sum.split)
  from e s u b d show ?thesis by (intro conjI)
qed

lemma file_dispatch_example:
  "get_file_extension ''book.xls'' \<in> set (map fst SUPPORTED_FORMATS)
   \<and> FileProcessor_process_file demo_services [80, 75, 3, 4] ''book.xls''
        = FileSuccess ''sheet'' ''book.xls'' ''xls'' 4 5
   \<and> get_file_extension ''notes.md'' \<notin> set (map fst SUPPORTED_FORMATS)
   \<and> FileProcessor_process_file demo_services [35, 32, 104, 105] ''notes.md''
        = FileFailure ''Formato no soportado: md''"
proof -
  have e: "get_file_extension ''notes.md'' = ''md''"
    by (simp add: get_file_extension_def str_lower_def char_lower_def)
  have l: "length [80, 75, 3, 4::nat] \<le> MAX_FILE_SIZE"
    by (simp add: MAX_FILE_SIZE_def)
  note x = file_dispatch [of "''book.xls''" demo_services "[80, 75, 3, 4]"]
  note m = file_dispatch [of "''notes.md''" demo_services "[35, 32, 104, 105]"]
  from x l have "FileProcessor_process_file demo_services [80, 75, 3, 4] ''book.xls''
        = extraction_result ''book.xls'' ''xls'' (length [80, 75, 3, 4::nat])
            (process_xlsx demo_services [80, 75, 3, 4])"
    by (simp add: get_file_extension_xls)
  moreover from m have "FileProcessor_process_file demo_services [35, 32, 104, 105] ''notes.md''
        = FileFailure ''Formato no soportado: md''"
    by (simp add: e SUPPORTED_FORMATS_def)
  ultimately show ?thesis
    by (simp add: e get_file_extension_xls SUPPORTED_FORMATS_def extraction_result_def
        demo_services_def demo_extract_def)
qed

section \<open>The claims\<close>

text \<open>
  C1. Claim: every chunk that \<open>translate_text\<close> sends to the translation service has at most
  \<open>MAX_CHUNK_SIZE = 4500\<close> characters and every chunk that \<open>text_to_speech\<close> sends to the
  speech service has at most \<open>MAX_TTS_SIZE = 4999\<close> characters, also for a text with a single
  sentence longer than the bound. The code does not keep this: a sentence that is longer
  than the bound starts a chunk of its own and is sent whole, and \<open>text_to_speech\<close> appends
  a full stop to every chunk after it has measured it. The theorem runs both functions:
  a text of 4501 letters is sent to the translation service as one chunk of 4501
  characters, whatever the service answers, and of the text made of 4999 letters, a full
  stop, a space and one more letter the speech service is sent a first chunk of 5000
  characters.
\<close>

theorem oversized_chunks_are_sent:
  "translate_log (snd (translate_text sv (replicate 4501 CHR ''a'') ''es'' w))
     = translate_log w @ [replicate 4501 CHR ''a'']
   \<and> MAX_CHUNK_SIZE < length (replicate 4501 CHR ''a'')
   \<and> prefix (speech_log w @ [replicate 4999 CHR ''a'' @ ''.''])
        (speech_log (snd (text_to_speech (sv\<lparr>pydub_installed := True\<rparr>) timestamp
                            (replicate 4999 CHR ''a'' @ ''. b'') lang output_dir w)))
   \<and> MAX_TTS_SIZE < length (replicate 4999 CHR ''a'' @ ''.'')"
proof -
  have a: "translate_log (snd (translate_text sv (replicate 4501 CHR ''a'') ''es'' w))
             = translate_log w @ [replicate 4501 CHR ''a'']"
    by (simp add: translate_text_def translate_chunks_long_word Let_def source_language_def
        MAX_CHUNK_SIZE_def split: sum.split)
  have b: "prefix (speech_log w @ [replicate 4999 CHR ''a'' @ ''.''])
        (speech_log (snd (text_to_speech (sv\<lparr>pydub_installed := True\<rparr>) timestamp
                            (replicate 4999 CHR ''a'' @ ''. b'') lang output_dir w)))"
    by (simp add: text_to_speech_def tts_chunks_full_sentence Let_def MAX_TTS_SIZE_def
        split: sum.split)
  show ?thesis using a b by (simp add: MAX_CHUNK_SIZE_def MAX_TTS_SIZE_def)
qed

text \<open>
  C2. Claim: for every text longer than 4500 characters, joining the chunks of
  \<open>translate_text\<close> with \<open>'\n\n'\<close> gives the text back, so that an identity translation
  reproduces the input. This fails as soon as a paragraph is longer than 4500 characters:
  its sentences are split at \<open>'. '\<close>, stripped and joined with a single space, so the full
  stops are gone. Counterexample: 4500 letters, a full stop, a space and one more letter.
\<close>

theorem chunks_rejoin_counterexample:
  "MAX_CHUNK_SIZE < length (replicate 4500 CHR ''a'' @ ''. b'')
   \<and> str_join NL2 (translate_chunks (replicate 4500 CHR ''a'' @ ''. b''))
        \<noteq> replicate 4500 CHR ''a'' @ ''. b''"
  by (simp add: translate_chunks_long_sentence MAX_CHUNK_SIZE_def NL2_def)

text \<open>
  C2 as amended: for every text longer than 4500 characters in which no paragraph is
  longer than 4500 characters, joining the chunks with \<open>'\n\n'\<close> gives the text back, and
  \<open>translate_text\<close> with a translation service that returns every chunk unchanged
  returns the text.
\<close>

theorem paragraph_chunks_rejoin:
  assumes "MAX_CHUNK_SIZE < length text"
    and "\<forall>p \<in> set (str_split NL2 text). length p \<le> MAX_CHUNK_SIZE"
  shows "str_join NL2 (translate_chunks text) = text
         \<and> fst (translate_text (sv\<lparr>translate_api := same_translate\<rparr>) text target_lang w) = text"
proof -
  have j: "str_join NL2 (translate_chunks text) = text"
    using assms(2) by (rule translate_chunks_short_paragraphs)
  have ok: "\<forall>i < length (translate_chunks text).
              \<exists>t. same_translate target_lang (translate_log w @ take i (translate_chunks text))
                     (translate_chunks text ! i) = Inr t"
    by (simp add: same_translate_def)
  have r: "replies (same_translate target_lang) log cs = cs" for log cs
    by (induction cs arbitrary: log) (simp_all add: replies_Nil replies_Cons same_translate_def)
  show ?thesis
    using assms(1) j translate_loop_all_ok [OF ok, of "[]"]
    by (simp add: translate_text_def Let_def r)
qed

theorem paragraph_chunks_rejoin_witness:
  "MAX_CHUNK_SIZE < length two_paragraphs
   \<and> str_join NL2 (translate_chunks two_paragraphs) = two_paragraphs
   \<and> fst (translate_text (demo_services\<lparr>translate_api := same_translate\<rparr>) two_paragraphs
             ''es'' demo_world) = two_paragraphs"
proof -
  have l: "MAX_CHUNK_SIZE < length two_paragraphs"
    by (simp add: two_paragraphs_def MAX_CHUNK_SIZE_def NL2_def)
  have p: "\<forall>p \<in> set (str_split NL2 two_paragraphs). length p \<le> MAX_CHUNK_SIZE"
    by (simp add: str_split_two_paragraphs MAX_CHUNK_SIZE_def)
  show ?thesis
    using l paragraph_chunks_rejoin [OF l p, of demo_services "''es''" demo_world] by simp
qed

text \<open>
  C3. Chunks are processed one after the other and put together in their order. When
  every call succeeds, \<open>translate_text\<close> on a text longer than 4500 characters and a target
  other than the source language sends the chunks in their order, each one after exactly
  the chunks before it, and returns the replies joined with \<open>'\n\n'\<close> in that order;
  \<open>text_to_speech\<close> on a text longer than 4999 characters sends its chunks in their order,
  gets one audio segment per chunk and writes their concatenation, in that order, to the
  file whose name it returns.
\<close>

theorem chunks_processed_in_order:
  "(MAX_CHUNK_SIZE < length text \<longrightarrow> target_lang \<noteq> source_language \<longrightarrow>
      (\<forall>i < length (translate_chunks text).
          \<exists>t. translate_api sv target_lang (translate_log w @ take i (translate_chunks text))
                 (translate_chunks text ! i) = Inr t) \<longrightarrow>
      translate_text sv text target_lang w =
        (str_join NL2 (replies (translate_api sv target_lang) (translate_log w)
                         (translate_chunks text)),
         w\<lparr>translate_log := translate_log w @ translate_chunks text\<rparr>))
   \<and> (MAX_TTS_SIZE < length text \<longrightarrow> pydub_installed sv \<longrightarrow>
      (\<forall>i < length (tts_chunks text).
          \<exists>a. speech_api sv lang (speech_log w @ take i (tts_chunks text))
                 (tts_chunks text ! i) = Inr a) \<longrightarrow>
      length (replies (speech_api sv lang) (speech_log w) (tts_chunks text))
        = length (tts_chunks text)
      \<and> text_to_speech sv timestamp text lang output_dir w =
        (os_path_join output_dir (''audio_'' @ lang @ ''_'' @ timestamp @ ''.mp3''),
         w\<lparr>speech_log := speech_log w @ tts_chunks text,
           audio_files := (audio_files w)
             (os_path_join output_dir (''audio_'' @ lang @ ''_'' @ timestamp @ ''.mp3'')
                \<mapsto> concat (replies (speech_api sv lang) (speech_log w) (tts_chunks text)))\<rparr>))"
proof (intro conjI impI)
  assume "MAX_CHUNK_SIZE < length text" "target_lang \<noteq> source_language"
    and ok: "\<forall>i < length (translate_chunks text).
          \<exists>t. translate_api sv target_lang (translate_log w @ take i (translate_chunks text))
                 (translate_chunks text ! i) = Inr t"
  then show "translate_text sv text target_lang w =
        (str_join NL2 (replies (translate_api sv target_lang) (translate_log w)
                         (translate_chunks text)),
         w\<lparr>translate_log := translate_log w @ translate_chunks text\<rparr>)"
    using translate_loop_all_ok [OF ok, of "[]"]
    by (simp add: translate_text_def Let_def)
next
  show "length (replies (speech_api sv lang) (speech_log w) (tts_chunks text))
        = length (tts_chunks text)"
    by (rule length_replies)
next
  assume "MAX_TTS_SIZE < length text" "pydub_installed sv"
    and ok: "\<forall>i < length (tts_chunks text).
          \<exists>a. speech_api sv lang (speech_log w @ take i (tts_chunks text))
                 (tts_chunks text ! i) = Inr a"
  then show "text_to_speech sv timestamp text lang output_dir w =
        (os_path_join output_dir (''audio_'' @ lang @ ''_'' @ timestamp @ ''.mp3''),
         w\<lparr>speech_log := speech_log w @ tts_chunks text,
           audio_files := (audio_files w)
             (os_path_join output_dir (''audio_'' @ lang @ ''_'' @ timestamp @ ''.mp3'')
                \<mapsto> concat (replies (speech_api sv lang) (speech_log w) (tts_chunks text)))\<rparr>)"
    using speech_loop_all_ok [OF ok, of "[]"]
    by (simp add: text_to_speech_def Let_def)
qed

theorem chunks_processed_in_order_witness:
  "MAX_TTS_SIZE < length two_sentences
   \<and> translate_text demo_services two_sentences ''es'' demo_world =
       (''es:'' @ replicate 3000 CHR ''a'' @ NL2 @ ''es:'' @ replicate 3000 CHR ''b'',
        demo_world\<lparr>translate_log := [replicate 3000 CHR ''a'', replicate 3000 CHR ''b'']\<rparr>)
   \<and> text_to_speech demo_services ''20260101_120000'' two_sentences ''es'' ''output_audio''
         demo_world =
       (''output_audio/audio_es_20260101_120000.mp3'',
        demo_world\<lparr>speech_log := [replicate 3000 CHR ''a'' @ ''.'', replicate 3000 CHR ''b'' @ ''.''],
                   audio_files := [''output_audio/audio_es_20260101_120000.mp3'' \<mapsto> [3001, 3001]]\<rparr>)"
proof -
  have l: "MAX_TTS_SIZE < length two_sentences" "MAX_CHUNK_SIZE < length two_sentences"
    by (simp_all add: two_sentences_def MAX_TTS_SIZE_def MAX_CHUNK_SIZE_def)
  have t: "''es'' \<noteq> source_language" "pydub_installed demo_services"
    by (simp_all add: source_language_def demo_services_def)
  have ok1: "\<forall>i < length (translate_chunks two_sentences).
          \<exists>t. translate_api demo_services ''es''
                 (translate_log demo_world @ take i (translate_chunks two_sentences))
                 (translate_chunks two_sentences ! i) = Inr t"
    by (simp add: demo_services_def demo_translate_def)
  have ok2: "\<forall>i < length (tts_chunks two_sentences).
          \<exists>a. speech_api demo_services ''es''
                 (speech_log demo_world @ take i (tts_chunks two_sentences))
                 (tts_chunks two_sentences ! i) = Inr a"
    by (simp add: demo_services_def demo_speech_def)
  show ?thesis
    using l t ok1 ok2
      chunks_processed_in_order [of two_sentences "''es''" demo_services demo_world "''es''"
        "''20260101_120000''" "''output_audio''"]
    by (simp add: translate_chunks_two_sentences tts_chunks_two_sentences replies_Nil
        replies_Cons demo_services_def demo_translate_def demo_speech_def demo_world_def
        os_path_join_def NL2_def)
qed

text \<open>
  C4. Claim: the chunker is a single-pass greedy packer that appends a segment to the
  current chunk exactly when the accumulated length plus the length of the segment plus 2
  does not exceed the bound, and otherwise emits the current chunk and starts a new one
  with the segment; consequently, of two consecutive chunks the earlier could not absorb
  the first segment of the later without exceeding the bound. The code does not keep this
  for the first chunk. The branch that appends a segment adds 2 for a separator also when
  the chunk is still empty, while the branch that opens a chunk after an emission records
  the bare length of the segment. The theorem runs the chunker on paragraphs of 10, 4488
  and 10 characters: the first chunk is the first paragraph alone, recorded as 12, and
  the second paragraph opens a new chunk, although the two joined with \<open>'\n\n'\<close> have 4500
  characters, which is within the bound. When a paragraph of 4495 characters comes first,
  the same two paragraphs do share one chunk of 4500 characters.
\<close>

theorem first_chunk_not_greedy:
  "MAX_CHUNK_SIZE < length three_paragraphs
   \<and> translate_groups three_paragraphs =
       [(NL2, [replicate 10 CHR ''a'']), (NL2, [replicate 4488 CHR ''b'', replicate 10 CHR ''c''])]
   \<and> translate_chunks three_paragraphs =
       [replicate 10 CHR ''a'', replicate 4488 CHR ''b'' @ NL2 @ replicate 10 CHR ''c'']
   \<and> length (str_join NL2 [replicate 10 CHR ''a'', replicate 4488 CHR ''b'']) = 4500
   \<and> MAX_CHUNK_SIZE = 4500
   \<and> MAX_CHUNK_SIZE < length later_paragraphs
   \<and> translate_chunks later_paragraphs =
       [replicate 4495 CHR ''x'', replicate 10 CHR ''a'' @ NL2 @ replicate 4488 CHR ''b'']"
proof -
  have "MAX_CHUNK_SIZE < length three_paragraphs"
    by (simp add: three_paragraphs_def MAX_CHUNK_SIZE_def NL2_def)
  moreover have "length (str_join NL2 [replicate 10 CHR ''a'', replicate 4488 CHR ''b'']) = 4500"
    by (simp add: NL2_def)
  moreover have "MAX_CHUNK_SIZE < length later_paragraphs"
    by (simp add: later_paragraphs_def MAX_CHUNK_SIZE_def NL2_def)
  ultimately show ?thesis
    using translate_groups_three_paragraphs translate_chunks_three_paragraphs
      translate_chunks_later_paragraphs MAX_CHUNK_SIZE_def
    by blast
qed

text \<open>
  C5. Claim: when the remote call for any chunk raises, \<open>translate_text\<close> and
  \<open>text_to_speech\<close> return an error outcome for the whole request and no partial result,
  and \<open>/translate\<close> then responds with status 500 and returns no translated text. The first
  half holds: the error string replaces whatever had been translated. The endpoint,
  however, recognises a failure by the substring \<open>Error\<close>, while the error strings of the core
  begin with \<open>Translation error:\<close> and \<open>TTS error:\<close>, written with a small e. The theorem
  runs the code where the translation service raises an exception whose message is
  \<open>timeout\<close>: \<open>translate_text\<close> returns \<open>Translation error: timeout\<close>, and the endpoint
  answers with a successful response that carries this string as the translated text.
\<close>

theorem failed_translation_answered_as_success:
  "translate_text (sv\<lparr>translate_api := failing_translate ''timeout''\<rparr>) ''hello'' ''es'' w
     = (''Translation error: timeout'', w\<lparr>translate_log := translate_log w @ [''hello'']\<rparr>)
   \<and> fst (translate_endpoint
            (sv\<lparr>translate_api := failing_translate ''timeout'', credits_rpc := ledger_rpc\<rparr>)
            u ''hello'' SPANISH (w\<lparr>credits := demo_ledger\<rparr>))
     = Response \<lparr>tr_success = True, tr_source_text = ''hello'', tr_source_language = ''en'',
                  tr_translated_text = ''Translation error: timeout'',
                  tr_target_language = ''es''\<rparr>"
proof -
  let ?sv = "sv\<lparr>translate_api := failing_translate ''timeout'', credits_rpc := ledger_rpc\<rparr>"
  let ?w1 = "w\<lparr>credits := demo_ledger(cu_id u := 2)\<rparr>"
  have a: "translate_text (sv\<lparr>translate_api := failing_translate ''timeout''\<rparr>) ''hello'' ''es'' w
     = (''Translation error: timeout'', w\<lparr>translate_log := translate_log w @ [''hello'']\<rparr>)"
    by (simp add: translate_text_def failing_translate_def MAX_CHUNK_SIZE_def
        source_language_def)
  have c: "check_and_deduct_credits ?sv (cu_id u) 1 (w\<lparr>credits := demo_ledger\<rparr>) = (True, ?w1)"
    by (simp add: check_and_deduct_ledger demo_ledger_def)
  have t: "translate_text ?sv ''hello'' (TargetLanguage_value SPANISH) ?w1
             = (''Translation error: timeout'',
                ?w1\<lparr>translate_log := translate_log ?w1 @ [''hello'']\<rparr>)"
    by (simp add: translate_text_def failing_translate_def MAX_CHUNK_SIZE_def
        source_language_def)
  have n: "\<not> str_contains ''Error'' ''Translation error: timeout''"
    by simp
  show ?thesis
    using a n translate_endpoint_classifies [OF c t]
    by (simp add: Config_SOURCE_LANGUAGE_def)
qed

text \<open>
  C6. Claim: exactly one credit is deducted per billable action; a request that performs
  its action deducts one credit, a request rejected for insufficient credits performs no
  action, and a request on which the action fails or is rejected leaves the balance
  unchanged. The last part does not hold: the credit is taken by the first statement of
  the handler, before the action is attempted, and nothing gives it back. Counterexample:
  a user with 3 credits asks \<open>/translate\<close> for Spanish while the translation service raises
  \<open>Server Error\<close>; the answer has status 500, and the user has 2 credits.
\<close>

theorem failed_action_costs_a_credit_counterexample:
  "fst (translate_endpoint (demo_services\<lparr>translate_api := failing_translate ''Server Error''\<rparr>)
          demo_user ''hello'' SPANISH demo_world)
     = HTTPException 500 ''Translation error: Server Error''
   \<and> credits demo_world (cu_id demo_user) = 3
   \<and> credits (snd (translate_endpoint
                     (demo_services\<lparr>translate_api := failing_translate ''Server Error''\<rparr>)
                     demo_user ''hello'' SPANISH demo_world)) (cu_id demo_user) = 2"
proof -
  let ?sv = "demo_services\<lparr>translate_api := failing_translate ''Server Error''\<rparr>"
  let ?w1 = "demo_world\<lparr>credits := (credits demo_world)(cu_id demo_user := 2)\<rparr>"
  have r: "credits_rpc ?sv = ledger_rpc"
    by (simp add: demo_services_def)
  have b: "credits demo_world (cu_id demo_user) = 3"
    by (simp add: demo_world_def demo_ledger_def)
  have c: "check_and_deduct_credits ?sv (cu_id demo_user) 1 demo_world = (True, ?w1)"
    using b by (simp add: check_and_deduct_ledger [OF r])
  have t: "translate_text ?sv ''hello'' (TargetLanguage_value SPANISH) ?w1
             = (''Translation error: Server Error'',
                ?w1\<lparr>translate_log := translate_log ?w1 @ [''hello'']\<rparr>)"
    by (simp add: translate_text_def failing_translate_def MAX_CHUNK_SIZE_def
        source_language_def)
  have y: "str_contains ''Error'' ''Translation error: Server Error''"
    by simp
  have "fst (translate_endpoint ?sv demo_user ''hello'' SPANISH demo_world)
          = HTTPException 500 ''Translation error: Server Error''"
    using y translate_endpoint_classifies [OF c t] by simp
  moreover have "credits (snd (translate_endpoint ?sv demo_user ''hello'' SPANISH demo_world))
                   (cu_id demo_user) = 2"
    using b credits_translate_endpoint [OF r, of demo_world demo_user "''hello''" SPANISH]
    by simp
  ultimately show ?thesis using b by simp
qed

text \<open>
  C6 as amended, with the ledger's stored procedure as the glossary and the docstring of
  its caller describe it: a request to \<open>/translate\<close>, \<open>/tts\<close> or \<open>/process-file\<close> by a user
  who has at least one credit takes exactly one credit from that user, before the action is
  attempted and whatever the outcome of the request is; a request by a user who has no
  credit is answered with status 402, performs no action and leaves the world, the balance
  included, as it was; a request to \<open>/process-file\<close> for a language outside the table is
  rejected before the credit check and leaves the world as it was.
\<close>

theorem credit_accounting:
  assumes "credits_rpc sv = ledger_rpc"
  shows "(1 \<le> credits w (cu_id u) \<longrightarrow>
            credits (snd (translate_endpoint sv u text l w))
              = (credits w)(cu_id u := credits w (cu_id u) - 1)
          \<and> credits (snd (tts_endpoint sv timestamp u text l w))
              = (credits w)(cu_id u := credits w (cu_id u) - 1)
          \<and> (target_language \<in> set (map fst Config_TARGET_LANGUAGES) \<longrightarrow>
               credits (snd (process_file_endpoint sv timestamp u content filename
                               target_language w))
                 = (credits w)(cu_id u := credits w (cu_id u) - 1)))
       \<and> (credits w (cu_id u) < 1 \<longrightarrow>
            translate_endpoint sv u text l w
              = (HTTPException 402
                   (insufficient_credits u '' Upgrade your plan to continue.''), w)
          \<and> tts_endpoint sv timestamp u text l w
              = (HTTPException 402 (insufficient_credits u []), w)
          \<and> (target_language \<in> set (map fst Config_TARGET_LANGUAGES) \<longrightarrow>
               process_file_endpoint sv timestamp u content filename target_language w
                 = (HTTPException 402 (insufficient_credits u []), w)))
       \<and> (target_language \<notin> set (map fst Config_TARGET_LANGUAGES) \<longrightarrow>
            snd (process_file_endpoint sv timestamp u content filename target_language w) = w)"
proof (intro conjI impI)
  assume "target_language \<notin> set (map fst Config_TARGET_LANGUAGES)"
  then show "snd (process_file_endpoint sv timestamp u content filename target_language w) = w"
    by (simp add: process_file_endpoint_def)
qed (simp_all add: assms credits_translate_endpoint credits_tts_endpoint
      credits_process_file_endpoint no_credits_endpoints)

theorem credit_accounting_witness:
  "credits_rpc demo_services = ledger_rpc
   \<and> credits demo_world (cu_id demo_user) = 3
   \<and> credits (snd (translate_endpoint demo_services demo_user ''hello'' SPANISH demo_world))
        (cu_id demo_user) = 2
   \<and> credits (snd (tts_endpoint demo_services ''20260101_120000'' demo_user ''hello'' SPANISH
                     demo_world)) (cu_id demo_user) = 2
   \<and> credits (snd (process_file_endpoint demo_services ''20260101_120000'' demo_user
                     [104, 105] ''a.txt'' ''es'' demo_world)) (cu_id demo_user) = 2
   \<and> translate_endpoint demo_services demo_user ''hello'' SPANISH
        (demo_world\<lparr>credits := empty_ledger\<rparr>)
        = (HTTPException 402
             ''Insufficient credits. You have 3 credits remaining. Upgrade your plan to continue.'',
           demo_world\<lparr>credits := empty_ledger\<rparr>)
   \<and> snd (process_file_endpoint demo_services ''20260101_120000'' demo_user [104, 105]
             ''a.txt'' ''nl'' demo_world) = demo_world"
proof -
  have r: "credits_rpc demo_services = ledger_rpc"
    by (simp add: demo_services_def)
  have b: "credits demo_world (cu_id demo_user) = 3"
    by (simp add: demo_world_def demo_ledger_def)
  have z: "credits (demo_world\<lparr>credits := empty_ledger\<rparr>) (cu_id demo_user) < 1"
    by (simp add: empty_ledger_def)
  have es: "''es'' \<in> set (map fst Config_TARGET_LANGUAGES)"
    and nl: "''nl'' \<notin> set (map fst Config_TARGET_LANGUAGES)"
    by (simp_all add: Config_TARGET_LANGUAGES_def)
  have m: "insufficient_credits demo_user '' Upgrade your plan to continue.''
             = ''Insufficient credits. You have 3 credits remaining. Upgrade your plan to continue.''"
    by (simp add: insufficient_credits_def demo_user_def str_int_def str_nat.simps)
  note has = credit_accounting [OF r, of demo_world demo_user "''hello''" SPANISH
      "''20260101_120000''" "''es''" "[104, 105]" "''a.txt''"]
  note none = credit_accounting [OF r, of "demo_world\<lparr>credits := empty_ledger\<rparr>" demo_user
      "''hello''" SPANISH "''20260101_120000''" "''es''" "[104, 105]" "''a.txt''"]
  note lang = credit_accounting [OF r, of demo_world demo_user "''hello''" SPANISH
      "''20260101_120000''" "''nl''" "[104, 105]" "''a.txt''"]
  from has b es have "credits (snd (translate_endpoint demo_services demo_user ''hello'' SPANISH demo_world))
        (cu_id demo_user) = 2"
    and "credits (snd (tts_endpoint demo_services ''20260101_120000'' demo_user ''hello'' SPANISH
                     demo_world)) (cu_id demo_user) = 2"
    and "credits (snd (process_file_endpoint demo_services ''20260101_120000'' demo_user
                     [104, 105] ''a.txt'' ''es'' demo_world)) (cu_id demo_user) = 2"
    by simp_all
  moreover from none z have "translate_endpoint demo_services demo_user ''hello'' SPANISH
        (demo_world\<lparr>credits := empty_ledger\<rparr>)
        = (HTTPException 402
             ''Insufficient credits. You have 3 credits remaining. Upgrade your plan to continue.'',
           demo_world\<lparr>credits := empty_ledger\<rparr>)"
    using m by simp
  moreover from lang nl have "snd (process_file_endpoint demo_services ''20260101_120000''
             demo_user [104, 105] ''a.txt'' ''nl'' demo_world) = demo_world"
    by simp
  ultimately show ?thesis using r b by simp
qed

text \<open>
  C7. The accepted target languages are the nine codes en, es, fr, de, it, pt, ja, zh-CN,
  ko. The enumeration \<open>TargetLanguage\<close> of the request models, \<open>Config.TARGET_LANGUAGES\<close> and
  \<open>LocalizationAI.target_languages\<close> hold exactly these codes. A request to \<open>/translate\<close> or
  \<open>/tts\<close> whose target language is one of them passes validation; one whose target language
  is not is rejected by validation, and such a request to \<open>/process-file\<close> is rejected with
  status 400 by the first statement of the handler. In all three cases the world is left as
  it was: nothing is sent to either service and no credit is taken.
\<close>

theorem nine_target_languages:
  "map TargetLanguage_value TargetLanguage_members = language_codes
   \<and> (\<forall>l. l \<in> set TargetLanguage_members)
   \<and> map fst Config_TARGET_LANGUAGES = language_codes
   \<and> map fst target_languages = language_codes
   \<and> distinct language_codes \<and> length language_codes = 9
   \<and> (target_language \<in> set language_codes \<longrightarrow>
        (\<exists>l. parse_TargetLanguage target_language = Some l
             \<and> TargetLanguage_value l = target_language))
   \<and> (target_language \<notin> set language_codes \<longrightarrow>
        post_translate sv u text target_language w
          = (HTTPException 422 ''Unprocessable Entity'', w)
        \<and> post_tts sv timestamp u text target_language w
          = (HTTPException 422 ''Unprocessable Entity'', w)
        \<and> process_file_endpoint sv timestamp u content filename target_language w
          = (HTTPException 400
               (''Language '' @ [CHR 0x27] @ target_language @ [CHR 0x27]
                  @ '' not supported. Supported: ''
                  @ repr_str_list (map fst Config_TARGET_LANGUAGES)), w))"
proof -
  have a: "map TargetLanguage_value TargetLanguage_members = language_codes"
    by (simp add: TargetLanguage_members_def language_codes_def)
  have b: "\<forall>l. l \<in> set TargetLanguage_members"
  proof
    fix l show "l \<in> set TargetLanguage_members"
      by (cases l) (simp_all add: TargetLanguage_members_def)
  qed
  have c: "map fst Config_TARGET_LANGUAGES = language_codes"
    by (simp add: Config_TARGET_LANGUAGES_def language_codes_def)
  have d: "map fst target_languages = language_codes"
    by (simp add: target_languages_def language_codes_def)
  have e: "distinct language_codes" "length language_codes = 9"
    by (simp_all add: language_codes_def)
  have f: "target_language \<in> set language_codes \<longrightarrow>
        (\<exists>l. parse_TargetLanguage target_language = Some l
             \<and> TargetLanguage_value l = target_language)"
  proof
    assume "target_language \<in> set language_codes"
    then have "target_language \<in> set (map TargetLanguage_value TargetLanguage_members)"
      using a by simp
    then obtain l where "TargetLanguage_value l = target_language" by auto
    then show "\<exists>l. parse_TargetLanguage target_language = Some l
             \<and> TargetLanguage_value l = target_language"
      using parse_TargetLanguage_value [of l] by auto
  qed
  have g: "target_language \<notin> set language_codes \<longrightarrow>
        post_translate sv u text target_language w
          = (HTTPException 422 ''Unprocessable Entity'', w)
        \<and> post_tts sv timestamp u text target_language w
          = (HTTPException 422 ''Unprocessable Entity'', w)
        \<and> process_file_endpoint sv timestamp u content filename target_language w
          = (HTTPException 400
               (''Language '' @ [CHR 0x27] @ target_language @ [CHR 0x27]
                  @ '' not supported. Supported: ''
                  @ repr_str_list (map fst Config_TARGET_LANGUAGES)), w)"
    using c by (simp add: post_translate_def post_tts_def validated_def
        parse_TargetLanguage_None process_file_endpoint_def)
  from a b c d e f g show ?thesis by (intro conjI)
qed

theorem nine_target_languages_witness:
  "''ja'' \<in> set language_codes
   \<and> parse_TargetLanguage ''ja'' = Some JAPANESE
   \<and> ''nl'' \<notin> set language_codes
   \<and> post_translate demo_services demo_user ''hello'' ''nl'' demo_world
        = (HTTPException 422 ''Unprocessable Entity'', demo_world)
   \<and> post_tts demo_services ''20260101_120000'' demo_user ''hello'' ''nl'' demo_world
        = (HTTPException 422 ''Unprocessable Entity'', demo_world)
   \<and> fst (process_file_endpoint demo_services ''20260101_120000'' demo_user [] ''a.txt'' ''nl''
             demo_world)
        = HTTPException 400 (''Language '' @ [CHR 0x27] @ ''nl'' @ [CHR 0x27]
            @ '' not supported. Supported: [''
            @ [CHR 0x27] @ ''en'' @ [CHR 0x27] @ '', '' @ [CHR 0x27] @ ''es'' @ [CHR 0x27] @ '', ''
            @ [CHR 0x27] @ ''fr'' @ [CHR 0x27] @ '', '' @ [CHR 0x27] @ ''de'' @ [CHR 0x27] @ '', ''
            @ [CHR 0x27] @ ''it'' @ [CHR 0x27] @ '', '' @ [CHR 0x27] @ ''pt'' @ [CHR 0x27] @ '', ''
            @ [CHR 0x27] @ ''ja'' @ [CHR 0x27] @ '', '' @ [CHR 0x27] @ ''zh-CN'' @ [CHR 0x27] @ '', ''
            @ [CHR 0x27] @ ''ko'' @ [CHR 0x27] @ '']'')
   \<and> snd (process_file_endpoint demo_services ''20260101_120000'' demo_user [] ''a.txt'' ''nl''
             demo_world) = demo_world"
proof -
  have i: "''ja'' \<in> set language_codes" and o: "''nl'' \<notin> set language_codes"
    by (simp_all add: language_codes_def)
  note t = nine_target_languages [of "''ja''"]
  note n = nine_target_languages [of "''nl''" demo_services demo_user "''hello''" demo_world
      "''20260101_120000''" "[]" "''a.txt''"]
  have p: "parse_TargetLanguage ''ja'' = Some JAPANESE"
    by (simp add: parse_TargetLanguage_def TargetLanguage_members_def)
  from i o p n show ?thesis
    by (simp add: repr_str_list_def Config_TARGET_LANGUAGES_def)
qed

text \<open>
  C8. Claim: \<open>FileProcessor.process_file\<close> dispatches on the lower-cased text after the last
  dot of the file name, the supported formats are exactly TXT, PDF, DOCX, JSON, CSV and
  XLSX, any other extension gives an unsupported-format failure, and no failure is raised.
  The docstrings of the module and of the endpoint list the same six formats, but the
  table \<open>SUPPORTED_FORMATS\<close> has a seventh key, \<open>xls\<close>, and the dispatch sends it to the XLSX
  extractor. The theorem runs the code on a file named \<open>book.xls\<close>, whatever the extractors
  are: the extension is \<open>xls\<close>, the file counts as supported, and the result is whatever the
  XLSX extractor makes of the content, a success when it returns a text, and not the
  unsupported-format failure.
\<close>

theorem xls_file_is_processed:
  "get_file_extension ''book.xls'' = ''xls''
   \<and> is_supported ''book.xls''
   \<and> FileProcessor_process_file sv [80, 75, 3, 4] ''book.xls''
        = extraction_result ''book.xls'' ''xls'' 4 (process_xlsx sv [80, 75, 3, 4])
   \<and> FileProcessor_process_file (sv\<lparr>process_xlsx := demo_extract\<rparr>) [80, 75, 3, 4] ''book.xls''
        = FileSuccess ''sheet'' ''book.xls'' ''xls'' 4 5"
proof -
  have e: "get_file_extension ''book.xls'' = ''xls''"
    by (rule get_file_extension_xls)
  have s: "is_supported ''book.xls''"
    by (simp add: is_supported_def e SUPPORTED_FORMATS_def)
  have r: "FileProcessor_process_file sv' [80, 75, 3, 4] ''book.xls''
        = extraction_result ''book.xls'' ''xls'' 4 (process_xlsx sv' [80, 75, 3, 4])" for sv'
    using s
    by (simp add: FileProcessor_process_file_def e extract_by_ext_def MAX_FILE_SIZE_def
        extraction_result_def Let_def split: sum.split)
  have d: "FileProcessor_process_file (sv\<lparr>process_xlsx := demo_extract\<rparr>) [80, 75, 3, 4] ''book.xls''
        = FileSuccess ''sheet'' ''book.xls'' ''xls'' 4 5"
    by (simp add: r extraction_result_def demo_extract_def)
  from e s r [of sv] d show ?thesis by (intro conjI)
qed

text \<open>
  C9. Translation to the source language is the identity: \<open>translate_text(text, 'en')\<close>
  returns the text as it is and sends nothing to the translation service, whatever the
  length of the text.
\<close>

theorem translate_to_source_is_identity:
  "translate_text sv text ''en'' w = (text, w)"
  by (simp add: translate_text_def source_language_def Let_def)

text \<open>
  C10. \<open>translate_text\<close> and \<open>text_to_speech\<close> never raise: in the model they are total
  functions that return a string, and every call that can raise in the source is a
  branch that ends in the string of the \<open>except\<close> clause. When a call to the service
  raises \<open>e\<close>, on the short path or as the first failure among the chunks, the result is
  \<open>Translation error: e\<close> or \<open>TTS error: e\<close>. The endpoints \<open>/translate\<close> and \<open>/tts\<close> answer
  with status 500 exactly when the substring \<open>Error\<close> occurs in the returned string, and with
  a successful response otherwise. So a translation that succeeds and contains \<open>Error\<close> is
  answered with status 500.
\<close>

theorem failures_are_strings_classified_by_Error:
  "(length text \<le> MAX_CHUNK_SIZE \<longrightarrow> target_lang \<noteq> source_language \<longrightarrow>
      translate_api sv target_lang (translate_log w) text = Inl e \<longrightarrow>
      fst (translate_text sv text target_lang w) = ''Translation error: '' @ e)
   \<and> (MAX_CHUNK_SIZE < length text \<longrightarrow> target_lang \<noteq> source_language \<longrightarrow>
      k < length (translate_chunks text) \<longrightarrow>
      (\<forall>i < k. \<exists>t. translate_api sv target_lang
                      (translate_log w @ take i (translate_chunks text))
                      (translate_chunks text ! i) = Inr t) \<longrightarrow>
      translate_api sv target_lang (translate_log w @ take k (translate_chunks text))
        (translate_chunks text ! k) = Inl e \<longrightarrow>
      fst (translate_text sv text target_lang w) = ''Translation error: '' @ e)
   \<and> (length text \<le> MAX_TTS_SIZE \<longrightarrow>
      speech_api sv lang (speech_log w) text = Inl e \<longrightarrow>
      fst (text_to_speech sv timestamp text lang output_dir w) = ''TTS error: '' @ e)
   \<and> (MAX_TTS_SIZE < length text \<longrightarrow> \<not> pydub_installed sv \<longrightarrow>
      speech_api sv lang (speech_log w) (take MAX_TTS_SIZE text) = Inl e \<longrightarrow>
      fst (text_to_speech sv timestamp text lang output_dir w) = ''TTS error: '' @ e)
   \<and> (MAX_TTS_SIZE < length text \<longrightarrow> pydub_installed sv \<longrightarrow>
      k < length (tts_chunks text) \<longrightarrow>
      (\<forall>i < k. \<exists>a. speech_api sv lang (speech_log w @ take i (tts_chunks text))
                      (tts_chunks text ! i) = Inr a) \<longrightarrow>
      speech_api sv lang (speech_log w @ take k (tts_chunks text)) (tts_chunks text ! k)
        = Inl e \<longrightarrow>
      fst (text_to_speech sv timestamp text lang output_dir w) = ''TTS error: '' @ e)
   \<and> (check_and_deduct_credits sv (cu_id u) 1 w = (True, w1) \<longrightarrow>
      translate_text sv text (TargetLanguage_value l) w1 = (translated, w2) \<longrightarrow>
      fst (translate_endpoint sv u text l w) =
        (if str_contains ''Error'' translated then HTTPException 500 translated
         else Response \<lparr>tr_success = True, tr_source_text = text,
                         tr_source_language = Config_SOURCE_LANGUAGE,
                         tr_translated_text = translated,
                         tr_target_language = TargetLanguage_value l\<rparr>))
   \<and> (check_and_deduct_credits sv (cu_id u) 1 w = (True, w1) \<longrightarrow>
      translate_text sv text (TargetLanguage_value l) w1 = (translated, w2) \<longrightarrow>
      text_to_speech sv timestamp translated (TargetLanguage_value l) ''output_audio'' w2
        = (audio_file, w3) \<longrightarrow>
      fst (tts_endpoint sv timestamp u text l w) =
        (if str_contains ''Error'' translated then HTTPException 500 translated
         else if str_contains ''Error'' audio_file then HTTPException 500 audio_file
         else Response \<lparr>au_success = True, au_filename = None, au_format = None,
                         au_source_text = text, au_source_language = Config_SOURCE_LANGUAGE,
                         au_translated_text = translated,
                         au_target_language = TargetLanguage_value l,
                         au_audio_file = os_path_basename audio_file,
                         au_audio_url = ''/audio/'' @ os_path_basename audio_file,
                         au_char_count = length text\<rparr>))
   \<and> (check_and_deduct_credits sv (cu_id u) 1 w = (True, w1) \<longrightarrow>
      length text \<le> MAX_CHUNK_SIZE \<longrightarrow> TargetLanguage_value l \<noteq> source_language \<longrightarrow>
      translate_api sv (TargetLanguage_value l) (translate_log w1) text = Inr reply \<longrightarrow>
      str_contains ''Error'' reply \<longrightarrow>
      fst (translate_endpoint sv u text l w) = HTTPException 500 reply)"
proof (intro conjI impI)
  assume "check_and_deduct_credits sv (cu_id u) 1 w = (True, w1)"
    and "length text \<le> MAX_CHUNK_SIZE" "TargetLanguage_value l \<noteq> source_language"
    and "translate_api sv (TargetLanguage_value l) (translate_log w1) text = Inr reply"
    and "str_contains ''Error'' reply"
  then show "fst (translate_endpoint sv u text l w) = HTTPException 500 reply"
    by (simp add: translate_endpoint_def translate_text_def)
qed (simp_all add: translate_text_short_failure translate_text_long_failure
      text_to_speech_short_failure text_to_speech_truncated_failure
      text_to_speech_long_failure translate_endpoint_classifies tts_endpoint_classifies)
theorem failures_are_strings_classified_by_Error_witness:
  "fst (translate_text (demo_services\<lparr>translate_api := failing_translate ''timeout''\<rparr>)
          ''hello'' ''es'' demo_world) = ''Translation error: timeout''
   \<and> fst (translate_text (demo_services\<lparr>translate_api := second_call_fails ''hola'' ''quota''\<rparr>)
          two_sentences ''es'' demo_world) = ''Translation error: quota''
   \<and> fst (text_to_speech (demo_services\<lparr>speech_api := failing_speech ''no network''\<rparr>)
          ''20260101_120000'' ''hello'' ''es'' ''output_audio'' demo_world)
        = ''TTS error: no network''
   \<and> fst (text_to_speech
            (demo_services\<lparr>speech_api := failing_speech ''no network'', pydub_installed := False\<rparr>)
            ''20260101_120000'' two_sentences ''es'' ''output_audio'' demo_world)
        = ''TTS error: no network''
   \<and> fst (text_to_speech (demo_services\<lparr>speech_api := second_call_fails [7] ''quota''\<rparr>)
          ''20260101_120000'' two_sentences ''es'' ''output_audio'' demo_world)
        = ''TTS error: quota''
   \<and> fst (translate_endpoint (demo_services\<lparr>translate_api := same_translate\<rparr>) demo_user
            ''No Error found'' SPANISH demo_world)
        = HTTPException 500 ''No Error found''
   \<and> fst (translate_endpoint (demo_services\<lparr>translate_api := same_translate\<rparr>) demo_user
            ''All good'' SPANISH demo_world)
        = Response \<lparr>tr_success = True, tr_source_text = ''All good'',
                     tr_source_language = ''en'', tr_translated_text = ''All good'',
                     tr_target_language = ''es''\<rparr>
   \<and> fst (tts_endpoint (demo_services\<lparr>speech_api := failing_speech ''Server Error''\<rparr>)
            ''20260101_120000'' demo_user ''hello'' SPANISH demo_world)
        = HTTPException 500 ''TTS error: Server Error''"
proof -
  note all = failures_are_strings_classified_by_Error
  note c1 = all [THEN conjunct1, rule_format]
  note c2 = all [THEN conjunct2, THEN conjunct1, rule_format]
  note c3 = all [THEN conjunct2, THEN conjunct2, THEN conjunct1, rule_format]
  note c4 = all [THEN conjunct2, THEN conjunct2, THEN conjunct2, THEN conjunct1, rule_format]
  note c5 = all [THEN conjunct2, THEN conjunct2, THEN conjunct2, THEN conjunct2,
      THEN conjunct1, rule_format]
  note c6 = all [THEN conjunct2, THEN conjunct2, THEN conjunct2, THEN conjunct2,
      THEN conjunct2, THEN conjunct1, rule_format]
  note c7 = all [THEN conjunct2, THEN conjunct2, THEN conjunct2, THEN conjunct2,
      THEN conjunct2, THEN conjunct2, THEN conjunct1, rule_format]
  note c8 = all [THEN conjunct2, THEN conjunct2, THEN conjunct2, THEN conjunct2,
      THEN conjunct2, THEN conjunct2, THEN conjunct2, rule_format]
  have es: "''es'' \<noteq> source_language" "TargetLanguage_value SPANISH \<noteq> source_language"
    by (simp_all add: source_language_def)
  have short: "length ''hello'' \<le> MAX_CHUNK_SIZE" "length ''hello'' \<le> MAX_TTS_SIZE"
    "length ''No Error found'' \<le> MAX_CHUNK_SIZE"
    by (simp_all add: MAX_CHUNK_SIZE_def MAX_TTS_SIZE_def)
  have long: "MAX_CHUNK_SIZE < length two_sentences" "MAX_TTS_SIZE < length two_sentences"
    by (simp_all add: two_sentences_def MAX_CHUNK_SIZE_def MAX_TTS_SIZE_def)
  have a1: "fst (translate_text (demo_services\<lparr>translate_api := failing_translate ''timeout''\<rparr>)
          ''hello'' ''es'' demo_world) = ''Translation error: timeout''"
    using c1 [OF short(1) es(1), where e = "''timeout''" and w = demo_world
        and sv = "demo_services\<lparr>translate_api := failing_translate ''timeout''\<rparr>"]
    by (simp add: failing_translate_def)
  have a2: "fst (translate_text (demo_services\<lparr>translate_api := second_call_fails ''hola'' ''quota''\<rparr>)
          two_sentences ''es'' demo_world) = ''Translation error: quota''"
    using c2 [OF long(1) es(1), where k = 1 and e = "''quota''" and w = demo_world
        and sv = "demo_services\<lparr>translate_api := second_call_fails ''hola'' ''quota''\<rparr>"]
    by (simp add: translate_chunks_two_sentences second_call_fails_def demo_world_def)
  have a3: "fst (text_to_speech (demo_services\<lparr>speech_api := failing_speech ''no network''\<rparr>)
          ''20260101_120000'' ''hello'' ''es'' ''output_audio'' demo_world)
        = ''TTS error: no network''"
    using c3 [OF short(2), where e = "''no network''" and w = demo_world and lang = "''es''"
        and sv = "demo_services\<lparr>speech_api := failing_speech ''no network''\<rparr>"]
    by (simp add: failing_speech_def)
  have a4: "fst (text_to_speech
            (demo_services\<lparr>speech_api := failing_speech ''no network'', pydub_installed := False\<rparr>)
            ''20260101_120000'' two_sentences ''es'' ''output_audio'' demo_world)
        = ''TTS error: no network''"
    using c4 [OF long(2), where e = "''no network''" and w = demo_world and lang = "''es''"
        and sv = "demo_services\<lparr>speech_api := failing_speech ''no network'',
                                 pydub_installed := False\<rparr>"]
    by (simp add: failing_speech_def)
  have a5: "fst (text_to_speech (demo_services\<lparr>speech_api := second_call_fails [7] ''quota''\<rparr>)
          ''20260101_120000'' two_sentences ''es'' ''output_audio'' demo_world)
        = ''TTS error: quota''"
    using c5 [OF long(2), where k = 1 and e = "''quota''" and w = demo_world and lang = "''es''"
        and sv = "demo_services\<lparr>speech_api := second_call_fails [7] ''quota''\<rparr>"]
    by (simp add: tts_chunks_two_sentences second_call_fails_def demo_world_def
        demo_services_def)
  let ?w1 = "demo_world\<lparr>credits := (credits demo_world)(cu_id demo_user := 2)\<rparr>"
  have cr: "check_and_deduct_credits sv (cu_id demo_user) 1 demo_world = (True, ?w1)"
    if "credits_rpc sv = ledger_rpc" for sv
    using that by (simp add: check_and_deduct_ledger demo_world_def demo_ledger_def)
  have b1: "fst (translate_endpoint (demo_services\<lparr>translate_api := same_translate\<rparr>) demo_user
            ''No Error found'' SPANISH demo_world)
        = HTTPException 500 ''No Error found''"
    using c8 [OF cr short(3) es(2), where reply = "''No Error found''"
        and sv = "demo_services\<lparr>translate_api := same_translate\<rparr>"]
    by (simp add: demo_services_def same_translate_def)
  have t2: "translate_text (demo_services\<lparr>translate_api := same_translate\<rparr>) ''All good''
              (TargetLanguage_value SPANISH) ?w1
            = (''All good'', ?w1\<lparr>translate_log := translate_log ?w1 @ [''All good'']\<rparr>)"
    by (simp add: translate_text_def same_translate_def MAX_CHUNK_SIZE_def source_language_def)
  have b2: "fst (translate_endpoint (demo_services\<lparr>translate_api := same_translate\<rparr>) demo_user
            ''All good'' SPANISH demo_world)
        = Response \<lparr>tr_success = True, tr_source_text = ''All good'',
                     tr_source_language = ''en'', tr_translated_text = ''All good'',
                     tr_target_language = ''es''\<rparr>"
    using c6 [OF cr t2] by (simp add: demo_services_def Config_SOURCE_LANGUAGE_def)
  let ?sv = "demo_services\<lparr>speech_api := failing_speech ''Server Error''\<rparr>"
  let ?w2 = "?w1\<lparr>translate_log := translate_log ?w1 @ [''hello'']\<rparr>"
  have t3: "translate_text ?sv ''hello'' (TargetLanguage_value SPANISH) ?w1 = (''es:hello'', ?w2)"
    by (simp add: translate_text_def demo_services_def demo_translate_def MAX_CHUNK_SIZE_def
        source_language_def)
  have s3: "text_to_speech ?sv ''20260101_120000'' ''es:hello'' (TargetLanguage_value SPANISH)
              ''output_audio'' ?w2
            = (''TTS error: Server Error'', ?w2\<lparr>speech_log := speech_log ?w2 @ [''es:hello'']\<rparr>)"
    by (simp add: text_to_speech_def speak_once_def failing_speech_def MAX_TTS_SIZE_def Let_def)
  have b3: "fst (tts_endpoint ?sv ''20260101_120000'' demo_user ''hello'' SPANISH demo_world)
        = HTTPException 500 ''TTS error: Server Error''"
    using c7 [OF cr t3 s3] by (simp add: demo_services_def)
  from a1 a2 a3 a4 a5 b1 b2 b3 show ?thesis by (intro conjI)
qed

end
